theory Spec2Isabelle
  imports Main
begin

section \<open>Strings\<close>

text \<open>
  A Python \<open>str\<close> is a sequence of Unicode code points, so a string of the program is a
  list of code points (\<open>nat\<close>). The manifest's difficulty tags and the Hangul range of
  \<open>clean_filename\<close> lie outside ASCII, and \<open>str.strip\<close> looks at code points, which is
  why a byte string would not do. \<open>ustr\<close> reads an ASCII literal as such a string.
\<close>

type_synonym ustring = "nat list"

definition ustr :: "string \<Rightarrow> ustring" where
  "ustr s = map of_char s"

text \<open>
  \<open>\w\<close> of Python's \<open>re\<close> on a \<open>str\<close> pattern: an alphanumeric code point or the
  underscore. Below 128 these are the digits, the ASCII letters and \<open>_\<close>; above, the
  answer is the Unicode database's (\<open>str.isalnum\<close>), which the model takes as the
  parameter \<open>uw\<close>.
\<close>

definition is_word :: "(nat \<Rightarrow> bool) \<Rightarrow> nat \<Rightarrow> bool" where
  "is_word uw c =
     (if c < 128 then (48 \<le> c \<and> c \<le> 57) \<or> (65 \<le> c \<and> c \<le> 90) \<or> (97 \<le> c \<and> c \<le> 122) \<or> c = 95
      else uw c)"

text \<open>\<open>str.startswith\<close>.\<close>

definition startswith :: "ustring \<Rightarrow> ustring \<Rightarrow> bool" where
  "startswith s p = (take (length p) s = p)"

text \<open>
  \<open>str.isspace\<close> of one code point (CPython's \<open>_PyUnicode_IsWhitespace\<close>), and
  \<open>str.strip()\<close> with no argument, which removes such code points at both ends.
\<close>

definition py_isspace :: "nat \<Rightarrow> bool" where
  "py_isspace c =
     ((9 \<le> c \<and> c \<le> 13) \<or> (28 \<le> c \<and> c \<le> 32) \<or> c = 133 \<or> c = 160 \<or> c = 5760
      \<or> (8192 \<le> c \<and> c \<le> 8202) \<or> c = 8232 \<or> c = 8233 \<or> c = 8239 \<or> c = 8287 \<or> c = 12288)"

definition py_strip :: "ustring \<Rightarrow> ustring" where
  "py_strip s = rev (dropWhile py_isspace (rev (dropWhile py_isspace s)))"

section \<open>The output formatter\<close>

subsection \<open>\<open>fix_empty_tags\<close>\<close>

text \<open>
  \<^verbatim>\<open>re.sub(r'<(\w+)([^>]*?)/>', r'<\1\2></\1>', xml_string)\<close>

  \<open>find_close\<close> is the tail of the pattern, \<^verbatim>\<open>([^>]*?)/>\<close>: the lazy group first tries
  to end (the next two code points are \<open>/>\<close>), and otherwise takes one more code point
  that is not \<open>>\<close>. It returns the group and the text after the match, or \<open>None\<close> when
  the pattern cannot match from here.
\<close>

fun find_close :: "ustring \<Rightarrow> (ustring \<times> ustring) option" where
  "find_close [] = None"
| "find_close (c # cs) =
     (if c = 47 \<and> (case cs of [] \<Rightarrow> False | d # _ \<Rightarrow> d = 62) then Some ([], tl cs)
      else if c = 62 then None
      else (case find_close cs of
              None \<Rightarrow> None
            | Some (attrs, rest) \<Rightarrow> Some (c # attrs, rest)))"

lemma find_close_length:
  "find_close xs = Some (a, r) \<Longrightarrow> length r < length xs"
proof (induction xs arbitrary: a r)
  case Nil
  then show ?case by simp
next
  case (Cons c cs)
  then show ?case
    by (cases cs) (auto split: if_splits option.splits prod.splits)
qed

text \<open>
  \<open>re.sub\<close> scans from the left: at a \<open><\<close> followed by a word character the greedy
  \<^verbatim>\<open>(\w+)\<close> takes the whole run of word characters (a shorter name cannot help: the
  word characters it gives up would go to the second group and lead to the same place),
  then \<open>find_close\<close> decides. A match is replaced and the scan goes on after it;
  otherwise the code point is copied and the scan moves one to the right.
\<close>

function fix_empty_tags :: "(nat \<Rightarrow> bool) \<Rightarrow> ustring \<Rightarrow> ustring" where
  "fix_empty_tags uw [] = []"
| "fix_empty_tags uw (c # cs) =
     (if c = 60 \<and> takeWhile (is_word uw) cs \<noteq> [] then
        (case find_close (dropWhile (is_word uw) cs) of
           None \<Rightarrow> c # fix_empty_tags uw cs
         | Some (attrs, rest) \<Rightarrow>
             [60] @ takeWhile (is_word uw) cs @ attrs @ [62, 60, 47]
               @ takeWhile (is_word uw) cs @ [62] @ fix_empty_tags uw rest)
      else c # fix_empty_tags uw cs)"
  by pat_completeness auto
termination
proof (relation "measure (\<lambda>(uw, s). length s)", goal_cases)
  case 1
  then show ?case by simp
next
  case (2 uw c cs)
  then show ?case by simp
next
  case (3 uw c cs x2 attrs rest)
  then have "length rest < length (dropWhile (is_word uw) cs)"
    using find_close_length by metis
  moreover have "length (dropWhile (is_word uw) cs) \<le> length cs"
    by (rule length_dropWhile_le)
  ultimately show ?case by simp
next
  case (4 uw c cs)
  then show ?case by simp
qed

subsection \<open>\<open>remove_empty_lines\<close>\<close>

text \<open>\<^verbatim>\<open>xml_string.split('\n')\<close> (never an empty list) and \<^verbatim>\<open>'\n'.join(cleaned_lines)\<close>.\<close>

fun split_nl :: "ustring \<Rightarrow> ustring list" where
  "split_nl [] = [[]]"
| "split_nl (c # cs) =
     (if c = 10 then [] # split_nl cs
      else (case split_nl cs of [] \<Rightarrow> [[c]] | l # ls \<Rightarrow> (c # l) # ls))"

fun join_nl :: "ustring list \<Rightarrow> ustring" where
  "join_nl [] = []"
| "join_nl [l] = l"
| "join_nl (l # m # ls) = l @ [10] @ join_nl (m # ls)"

text \<open>
  The loop \<^verbatim>\<open>for i, line in enumerate(lines)\<close>, with \<open>cleaned_lines\<close> as its state. The
  first line is always kept. A later line that is blank after \<open>strip\<close> is skipped when
  the last kept line is blank too, or when the last kept line starts (after \<open>strip\<close>)
  with \<open><?\<close>, or with \<open><\<close> but not with \<open><!--\<close>.
\<close>

fun rel_loop :: "nat \<Rightarrow> ustring list \<Rightarrow> ustring list \<Rightarrow> ustring list" where
  "rel_loop i [] cleaned_lines = cleaned_lines"
| "rel_loop i (line # rest) cleaned_lines =
     (let stripped = py_strip line;
          is_empty = (length stripped = 0)
      in if i = 0 then rel_loop (Suc i) rest (cleaned_lines @ [line])
         else
           let prev_is_tag =
                 (if cleaned_lines \<noteq> [] then
                    (let prev_line = py_strip (last cleaned_lines)
                     in startswith prev_line (ustr ''<?'')
                        \<or> (startswith prev_line (ustr ''<'')
                            \<and> \<not> startswith prev_line (ustr ''<!--'')))
                  else False)
           in if is_empty \<and> cleaned_lines \<noteq> [] \<and> py_strip (last cleaned_lines) = []
              then rel_loop (Suc i) rest cleaned_lines
              else if is_empty \<and> prev_is_tag then rel_loop (Suc i) rest cleaned_lines
              else rel_loop (Suc i) rest (cleaned_lines @ [line]))"

definition remove_empty_lines :: "ustring \<Rightarrow> ustring" where
  "remove_empty_lines xml_string = join_nl (rel_loop 0 (split_nl xml_string) [])"

text \<open>
  The loop of \<open>remove_empty_lines\<close> only looks at the last line it kept: \<open>drops\<close> is
  its test and \<open>scan\<close> the loop after the first line.
\<close>

definition drops :: "ustring \<Rightarrow> ustring \<Rightarrow> bool" where
  "drops prev line =
     (py_strip line = [] \<and>
       (py_strip prev = [] \<or>
        startswith (py_strip prev) (ustr ''<?'') \<or>
        (startswith (py_strip prev) (ustr ''<'') \<and> \<not> startswith (py_strip prev) (ustr ''<!--''))))"

fun scan :: "ustring \<Rightarrow> ustring list \<Rightarrow> ustring list" where
  "scan prev [] = []"
| "scan prev (l # ls) = (if drops prev l then scan prev ls else l # scan l ls)"

text \<open>
  The two passes as \<open>process_csv_to_xml\<close> runs them on the pretty-printed text:
  \<open>fix_empty_tags\<close>, then \<open>remove_empty_lines\<close>.
\<close>

definition formatter :: "(nat \<Rightarrow> bool) \<Rightarrow> ustring \<Rightarrow> ustring" where
  "formatter uw s = remove_empty_lines (fix_empty_tags uw s)"

text \<open>The text holds the two code points \<open>/>\<close> next to each other.\<close>

fun has_slash_gt :: "ustring \<Rightarrow> bool" where
  "has_slash_gt (a # b # cs) = ((a = 47 \<and> b = 62) \<or> has_slash_gt (b # cs))"
| "has_slash_gt [a] = False"
| "has_slash_gt [] = False"

text \<open>
  A Unicode table for concrete inputs that are ASCII only: no code point from 128 on
  counts as a word character (none occurs in those inputs).
\<close>

definition ascii_words :: "nat \<Rightarrow> bool" where
  "ascii_words c = False"

section \<open>Filename sanitization\<close>

text \<open>
  \<open>clean_filename\<close> of \<open>csv_with_source_data.py\<close> and \<open>csv_with_gcs_source_data.py\<close>
  (the same text in both). Its callers pass a \<open>str\<close>.

  \<^verbatim>\<open>re.sub(r'[^\wX-Y.-]', '', filename)\<close>, where \<open>X\<close> is U+AC00 and \<open>Y\<close> is U+D7A3 in the
  source, keeps the code points of the class: word characters, the range U+AC00 to U+D7A3
  (44032 to 55203, the Hangul syllables), the dot (46) and the hyphen (45, a literal at
  the end of the class).
\<close>

definition is_hangul :: "nat \<Rightarrow> bool" where
  "is_hangul c = (44032 \<le> c \<and> c \<le> 55203)"

definition is_dot_hyphen :: "nat \<Rightarrow> bool" where
  "is_dot_hyphen c = (c = 46 \<or> c = 45)"

definition keeps :: "(nat \<Rightarrow> bool) \<Rightarrow> nat \<Rightarrow> bool" where
  "keeps uw c = (is_word uw c \<or> is_hangul c \<or> is_dot_hyphen c)"

text \<open>
  \<^verbatim>\<open>re.sub(r'[.-]+', '.', clean_name)\<close>: the greedy \<open>+\<close> takes a whole run of dots and
  hyphens, which becomes one dot, and the scan goes on after the run.
\<close>

function sub_dot_runs :: "ustring \<Rightarrow> ustring" where
  "sub_dot_runs [] = []"
| "sub_dot_runs (c # cs) =
     (if is_dot_hyphen c then 46 # sub_dot_runs (dropWhile is_dot_hyphen cs)
      else c # sub_dot_runs cs)"
  by pat_completeness auto
termination
  by (relation "measure length") (auto simp: less_Suc_eq_le length_dropWhile_le)

definition clean_filename :: "(nat \<Rightarrow> bool) \<Rightarrow> ustring \<Rightarrow> ustring" where
  "clean_filename uw filename =
     (if filename = [] then filename
      else
        let clean_name = filter (keeps uw) filename;
            clean_name = sub_dot_runs clean_name
        in if 46 \<notin> set clean_name then clean_name @ ustr ''.jpg'' else clean_name)"

text \<open>
  The spec's words, to compare with: the maximal runs of a list with respect to a
  predicate (\<open>runs\<close>), and the sanitizer as "remove every character that is not a word
  character, a Hangul syllable, a dot or a hyphen; replace every maximal run of dots and
  hyphens with a single dot; append \<open>.jpg\<close> exactly when no dot remains".
\<close>

function runs :: "('a \<Rightarrow> bool) \<Rightarrow> 'a list \<Rightarrow> 'a list list" where
  "runs P [] = []"
| "runs P (x # xs) =
     (x # takeWhile (\<lambda>y. P y = P x) xs) # runs P (dropWhile (\<lambda>y. P y = P x) xs)"
  by pat_completeness auto
termination
  by (relation "measure (\<lambda>(P, xs). length xs)") (auto simp: less_Suc_eq_le length_dropWhile_le)

definition clean_filename_spec :: "(nat \<Rightarrow> bool) \<Rightarrow> ustring \<Rightarrow> ustring" where
  "clean_filename_spec uw filename =
     (let kept = filter (\<lambda>c. is_word uw c \<or> is_hangul c \<or> c = 46 \<or> c = 45) filename;
          collapsed = concat (map (\<lambda>r. if is_dot_hyphen (hd r) then [46] else r)
                                  (runs is_dot_hyphen kept))
      in if 46 \<in> set collapsed then collapsed else collapsed @ ustr ''.jpg'')"

section \<open>Python values\<close>

text \<open>
  What \<open>json.load\<close> returns, and what a cell of the manifest holds: \<open>None\<close>, a \<open>bool\<close>,
  an \<open>int\<close> (unbounded), a \<open>float\<close>, a \<open>str\<close>, a \<open>list\<close> or a \<open>dict\<close> with string keys
  (in insertion order, each key once). The type \<open>'f\<close> stands for Python's floats:
  binary floating point is not computed here, and what the program does with a float
  (compare it with zero, add, round to four places, format, print) goes through the
  record \<open>py_builtins\<close>, which every function of the model takes as \<open>ops\<close>. The same
  record holds \<open>repr\<close> of a list or a dict, which \<open>str\<close> uses, and \<open>int(s)\<close> of a string
  (\<open>None\<close> when it raises \<open>ValueError\<close>). \<open>float_of_int\<close> is \<open>None\<close> when the \<open>int\<close> is
  too large for a float (\<open>OverflowError\<close>).
\<close>

datatype 'f pyval =
    PNone
  | PBool bool
  | PInt int
  | PFloat 'f
  | PStr ustring
  | PList "'f pyval list"
  | PDict "(ustring \<times> 'f pyval) list"

datatype py_error =
  AttributeError | TypeError | KeyError | IndexError | OverflowError | ValueError | FileNotFoundError

record 'f py_builtins =
  float_nonzero :: "'f \<Rightarrow> bool"
  float_gt0 :: "'f \<Rightarrow> bool"
  float_of_int :: "int \<Rightarrow> 'f option"
  float_add :: "'f \<Rightarrow> 'f \<Rightarrow> 'f"
  float_round4 :: "'f \<Rightarrow> 'f"
  float_fmt4 :: "'f \<Rightarrow> ustring"
  float_str :: "'f \<Rightarrow> ustring"
  container_repr :: "'f pyval \<Rightarrow> ustring"
  int_of_str :: "ustring \<Rightarrow> int option"

text \<open>An exception ends the computation: \<open>Inl\<close> is the exception, \<open>Inr\<close> the value.\<close>

definition bindE :: "'e + 'a \<Rightarrow> ('a \<Rightarrow> 'e + 'b) \<Rightarrow> 'e + 'b" where
  "bindE m f = (case m of Inl e \<Rightarrow> Inl e | Inr v \<Rightarrow> f v)"

text \<open>The truth value of \<open>if v:\<close> and \<open>not v\<close>.\<close>

fun truthy :: "'f py_builtins \<Rightarrow> 'f pyval \<Rightarrow> bool" where
  "truthy ops PNone = False"
| "truthy ops (PBool b) = b"
| "truthy ops (PInt n) = (n \<noteq> 0)"
| "truthy ops (PFloat x) = float_nonzero ops x"
| "truthy ops (PStr s) = (s \<noteq> [])"
| "truthy ops (PList l) = (l \<noteq> [])"
| "truthy ops (PDict kv) = (kv \<noteq> [])"

text \<open>\<open>v.get(key, default)\<close>: only a dict has \<open>get\<close>.\<close>

fun py_get :: "'f pyval \<Rightarrow> ustring \<Rightarrow> 'f pyval \<Rightarrow> py_error + 'f pyval" where
  "py_get (PDict kv) key dflt = Inr (case map_of kv key of None \<Rightarrow> dflt | Some v \<Rightarrow> v)"
| "py_get _ key dflt = Inl AttributeError"

text \<open>\<open>len(v)\<close>, \<open>v[i]\<close> for an index \<open>i \<ge> 0\<close>, and the items of \<open>for x in v\<close>.\<close>

fun py_len :: "'f pyval \<Rightarrow> py_error + nat" where
  "py_len (PStr s) = Inr (length s)"
| "py_len (PList l) = Inr (length l)"
| "py_len (PDict kv) = Inr (length kv)"
| "py_len _ = Inl TypeError"

fun py_index :: "'f pyval \<Rightarrow> nat \<Rightarrow> py_error + 'f pyval" where
  "py_index (PList l) i = (if i < length l then Inr (l ! i) else Inl IndexError)"
| "py_index (PStr s) i = (if i < length s then Inr (PStr [s ! i]) else Inl IndexError)"
| "py_index (PDict kv) i = Inl KeyError"
| "py_index _ i = Inl TypeError"

fun py_iter :: "'f pyval \<Rightarrow> py_error + 'f pyval list" where
  "py_iter (PList l) = Inr l"
| "py_iter (PDict kv) = Inr (map (\<lambda>(k, v). PStr k) kv)"
| "py_iter (PStr s) = Inr (map (\<lambda>c. PStr [c]) s)"
| "py_iter _ = Inl TypeError"

text \<open>\<open>str(n)\<close> of an \<open>int\<close>: decimal digits, with a minus sign below zero.\<close>

function digits :: "nat \<Rightarrow> ustring" where
  "digits n = (if n < 10 then [48 + n] else digits (n div 10) @ [48 + n mod 10])"
  by pat_completeness auto
termination
  by (relation "measure id") auto

declare digits.simps [simp del]

definition str_int :: "int \<Rightarrow> ustring" where
  "str_int i = (if i < 0 then 45 # digits (nat (- i)) else digits (nat i))"

text \<open>\<open>str(v)\<close>, also what an f-string writes for \<open>{v}\<close>.\<close>

fun py_str :: "'f py_builtins \<Rightarrow> 'f pyval \<Rightarrow> ustring" where
  "py_str ops PNone = ustr ''None''"
| "py_str ops (PBool b) = (if b then ustr ''True'' else ustr ''False'')"
| "py_str ops (PInt n) = str_int n"
| "py_str ops (PFloat x) = float_str ops x"
| "py_str ops (PStr s) = s"
| "py_str ops (PList l) = container_repr ops (PList l)"
| "py_str ops (PDict kv) = container_repr ops (PDict kv)"

text \<open>
  \<open>s.replace(old, new)\<close>: the occurrences of \<open>old\<close> from the left, not overlapping; with
  an empty \<open>old\<close>, \<open>new\<close> goes before every code point and at the end.
\<close>

function py_replace :: "ustring \<Rightarrow> ustring \<Rightarrow> ustring \<Rightarrow> ustring" where
  "py_replace old new [] = (if old = [] then new else [])"
| "py_replace old new (c # cs) =
     (if old = [] then new @ concat (map (\<lambda>d. d # new) (c # cs))
      else if startswith (c # cs) old then new @ py_replace old new (drop (length old) (c # cs))
      else c # py_replace old new cs)"
  by pat_completeness auto
termination
  by (relation "measure (\<lambda>(old, new, s). length s)") auto

text \<open>
  Numbers. \<open>round(v, 4)\<close> leaves an \<open>int\<close> as it is (a \<open>bool\<close> becomes the \<open>int\<close>) and
  rounds a float; a value that is not a number raises \<open>TypeError\<close>.
  \<open>format(v, '.4f')\<close> of an \<open>int\<close> goes through \<open>float\<close>, which is exact up to \<open>2^53\<close>
  in absolute value: the decimal digits, a dot, and four zeros.
\<close>

fun py_round4 :: "'f py_builtins \<Rightarrow> 'f pyval \<Rightarrow> py_error + 'f pyval" where
  "py_round4 ops (PInt n) = Inr (PInt n)"
| "py_round4 ops (PBool b) = Inr (PInt (if b then 1 else 0))"
| "py_round4 ops (PFloat x) = Inr (PFloat (float_round4 ops x))"
| "py_round4 ops _ = Inl TypeError"

fun py_fmt4 :: "'f py_builtins \<Rightarrow> 'f pyval \<Rightarrow> py_error + ustring" where
  "py_fmt4 ops (PInt n) =
     (if \<bar>n\<bar> \<le> 2 ^ 53 then Inr (str_int n @ ustr ''.0000'')
      else (case float_of_int ops n of
              None \<Rightarrow> Inl OverflowError
            | Some x \<Rightarrow> Inr (float_fmt4 ops x)))"
| "py_fmt4 ops (PBool b) = Inr (str_int (if b then 1 else 0) @ ustr ''.0000'')"
| "py_fmt4 ops (PFloat x) = Inr (float_fmt4 ops x)"
| "py_fmt4 ops _ = Inl TypeError"

text \<open>\<^verbatim>\<open>f"{round(v, 4):.4f}"\<close>\<close>

definition coord_text :: "'f py_builtins \<Rightarrow> 'f pyval \<Rightarrow> py_error + ustring" where
  "coord_text ops v = bindE (py_round4 ops v) (py_fmt4 ops)"

text \<open>\<open>v > 0\<close> and \<open>a + b\<close>.\<close>

fun py_gt0 :: "'f py_builtins \<Rightarrow> 'f pyval \<Rightarrow> py_error + bool" where
  "py_gt0 ops (PInt n) = Inr (0 < n)"
| "py_gt0 ops (PBool b) = Inr b"
| "py_gt0 ops (PFloat x) = Inr (float_gt0 ops x)"
| "py_gt0 ops _ = Inl TypeError"

fun as_int :: "'f pyval \<Rightarrow> int option" where
  "as_int (PInt n) = Some n"
| "as_int (PBool b) = Some (if b then 1 else 0)"
| "as_int _ = None"

fun as_float :: "'f py_builtins \<Rightarrow> 'f pyval \<Rightarrow> py_error + 'f" where
  "as_float ops (PFloat x) = Inr x"
| "as_float ops v =
     (case as_int v of
        None \<Rightarrow> Inl TypeError
      | Some n \<Rightarrow> (case float_of_int ops n of None \<Rightarrow> Inl OverflowError | Some x \<Rightarrow> Inr x))"

fun is_number :: "'f pyval \<Rightarrow> bool" where
  "is_number (PInt n) = True"
| "is_number (PBool b) = True"
| "is_number (PFloat x) = True"
| "is_number _ = False"

definition py_add :: "'f py_builtins \<Rightarrow> 'f pyval \<Rightarrow> 'f pyval \<Rightarrow> py_error + 'f pyval" where
  "py_add ops a b =
     (case (a, b) of
        (PStr s, PStr t) \<Rightarrow> Inr (PStr (s @ t))
      | (PList l, PList m) \<Rightarrow> Inr (PList (l @ m))
      | _ \<Rightarrow>
         (if \<not> is_number a \<or> \<not> is_number b then Inl TypeError
          else (case (as_int a, as_int b) of
                  (Some m, Some n) \<Rightarrow> Inr (PInt (m + n))
                | _ \<Rightarrow> bindE (as_float ops a) (\<lambda>x. bindE (as_float ops b) (\<lambda>y.
                         Inr (PFloat (float_add ops x y)))))))"

text \<open>
  A record of builtins for inputs that hold no float and no container where a string is
  printed, and on which \<open>int(s)\<close> is not reached: its fields are never asked there.
\<close>

definition no_floats :: "unit py_builtins" where
  "no_floats = \<lparr> float_nonzero = (\<lambda>x. False), float_gt0 = (\<lambda>x. False),
     float_of_int = (\<lambda>n. None), float_add = (\<lambda>x y. ()), float_round4 = (\<lambda>x. ()),
     float_fmt4 = (\<lambda>x. []), float_str = (\<lambda>x. []), container_repr = (\<lambda>v. []),
     int_of_str = (\<lambda>s. None) \<rparr>"

section \<open>Building the image element\<close>

text \<open>
  An \<open>xml.etree.ElementTree.Element\<close>: tag, attributes in the order they were set, text
  and children. \<open>set\<close> writes an attribute (a key set twice keeps its place).
\<close>

datatype xml = Element (xtag: ustring) (xattrib: "(ustring \<times> ustring) list")
  (xtext: "ustring option") (xchildren: "xml list")

fun attr_update :: "ustring \<Rightarrow> ustring \<Rightarrow> (ustring \<times> ustring) list \<Rightarrow> (ustring \<times> ustring) list" where
  "attr_update k v [] = [(k, v)]"
| "attr_update k v (p # ps) = (if fst p = k then (k, v) # ps else p # attr_update k v ps)"

fun xset :: "ustring \<Rightarrow> ustring \<Rightarrow> xml \<Rightarrow> xml" where
  "xset k v (Element t a x c) = Element t (attr_update k v a) x c"

fun xappend :: "xml \<Rightarrow> xml \<Rightarrow> xml" where
  "xappend child (Element t a x c) = Element t a x (c @ [child])"

fun xget :: "xml \<Rightarrow> ustring \<Rightarrow> ustring option" where
  "xget (Element t a x c) k = map_of a k"

subsection \<open>\<open>escape_xml_text\<close>\<close>

definition escape_xml_text :: "'f py_builtins \<Rightarrow> 'f pyval \<Rightarrow> ustring" where
  "escape_xml_text ops txt =
     (if \<not> truthy ops txt then []
      else
        let t = py_str ops txt;
            t = py_replace (ustr ''&'') (ustr ''&amp;'') t;
            t = py_replace (ustr ''<'') (ustr ''&lt;'') t;
            t = py_replace (ustr ''>'') (ustr ''&gt;'') t;
            t = py_replace [34] (ustr ''&quot;'') t;
            t = py_replace [39] (ustr ''&apos;'') t
        in t)"

subsection \<open>The points of one annotation record\<close>

text \<open>
  \<^verbatim>\<open>f"{round(p.get('x', 0), 4):.4f},{round(p.get('y', 0), 4):.4f}"\<close> for a corner or a
  polygon point \<open>p\<close>, and the same text for two numbers at hand.
\<close>

definition xy_text :: "'f py_builtins \<Rightarrow> 'f pyval \<Rightarrow> 'f pyval \<Rightarrow> py_error + ustring" where
  "xy_text ops x y =
     bindE (coord_text ops x) (\<lambda>tx. bindE (coord_text ops y) (\<lambda>ty. Inr (tx @ [44] @ ty)))"

definition point_text :: "'f py_builtins \<Rightarrow> 'f pyval \<Rightarrow> py_error + ustring" where
  "point_text ops p =
     bindE (py_get p (ustr ''x'') (PInt 0)) (\<lambda>x. bindE (coord_text ops x) (\<lambda>tx.
     bindE (py_get p (ustr ''y'') (PInt 0)) (\<lambda>y. bindE (coord_text ops y) (\<lambda>ty.
     Inr (tx @ [44] @ ty)))))"

text \<open>
  The \<open>BOX\<close> branch (lines 147 to 180 of \<open>data_processing_1128.py\<close>, 162 to 195 of the
  merged script). The \<open>else\<close> that reads \<open>object\<close> belongs to \<open>if coords:\<close>.
\<close>

definition box_points :: "'f py_builtins \<Rightarrow> 'f pyval \<Rightarrow> py_error + ustring list" where
  "box_points ops annotation =
     bindE (py_get annotation (ustr ''coords'') (PDict [])) (\<lambda>coords.
     if truthy ops coords then
       bindE (py_get coords (ustr ''tl'') (PDict [])) (\<lambda>tl.
       bindE (py_get coords (ustr ''tr'') (PDict [])) (\<lambda>tr.
       bindE (py_get coords (ustr ''br'') (PDict [])) (\<lambda>br.
       bindE (py_get coords (ustr ''bl'') (PDict [])) (\<lambda>bl.
       if truthy ops tl \<and> truthy ops tr \<and> truthy ops br \<and> truthy ops bl then
         bindE (point_text ops tl) (\<lambda>p1.
         bindE (point_text ops tr) (\<lambda>p2.
         bindE (point_text ops br) (\<lambda>p3.
         bindE (point_text ops bl) (\<lambda>p4.
         Inr [p1, p2, p3, p4]))))
       else Inr []))))
     else
       bindE (py_get annotation (ustr ''object'') (PDict [])) (\<lambda>obj.
       if truthy ops obj then
         bindE (py_get obj (ustr ''left'') (PInt 0)) (\<lambda>left.
         bindE (py_get obj (ustr ''top'') (PInt 0)) (\<lambda>top.
         bindE (py_get obj (ustr ''width'') (PInt 0)) (\<lambda>width.
         bindE (py_get obj (ustr ''height'') (PInt 0)) (\<lambda>height.
         bindE (py_gt0 ops width) (\<lambda>wpos.
         bindE (if wpos then py_gt0 ops height else Inr False) (\<lambda>hpos.
         if wpos \<and> hpos then
           bindE (xy_text ops left top) (\<lambda>p1.
           bindE (py_add ops left width) (\<lambda>right.
           bindE (xy_text ops right top) (\<lambda>p2.
           bindE (py_add ops top height) (\<lambda>bottom.
           bindE (xy_text ops right bottom) (\<lambda>p3.
           bindE (xy_text ops left bottom) (\<lambda>p4.
           Inr [p1, p2, p3, p4]))))))
         else Inr []))))))
       else Inr []))"

text \<open>The \<open>POLYGONS\<close> branch: the points in the order of the list.\<close>

fun mapE :: "('a \<Rightarrow> 'e + 'b) \<Rightarrow> 'a list \<Rightarrow> 'e + 'b list" where
  "mapE f [] = Inr []"
| "mapE f (x # xs) = bindE (f x) (\<lambda>y. bindE (mapE f xs) (\<lambda>ys. Inr (y # ys)))"

definition polygon_points :: "'f py_builtins \<Rightarrow> 'f pyval \<Rightarrow> py_error + ustring list" where
  "polygon_points ops annotation =
     bindE (py_get annotation (ustr ''points'') (PList [])) (\<lambda>points_data.
     if truthy ops points_data then
       bindE (py_iter points_data) (mapE (point_text ops))
     else Inr [])"

definition annotation_points :: "'f py_builtins \<Rightarrow> 'f pyval \<Rightarrow> py_error + ustring list" where
  "annotation_points ops annotation =
     bindE (py_get annotation (ustr ''annotation'') (PStr [])) (\<lambda>annotation_type.
     if annotation_type = PStr (ustr ''BOX'') then box_points ops annotation
     else if annotation_type = PStr (ustr ''POLYGONS'') then polygon_points ops annotation
     else Inr [])"

subsection \<open>The text of one annotation record\<close>

text \<open>
  \<^verbatim>\<open>text_value = annotation.get(text_key, '')\<close>, then
  \<^verbatim>\<open>if isinstance(text_value, str): text_value = text_value.replace(' ', '')\<close>.
  Both scripts read the key \<open>ocr\<close>.
\<close>

fun strip_spaces :: "'f pyval \<Rightarrow> 'f pyval" where
  "strip_spaces (PStr s) = PStr (py_replace [32] [] s)"
| "strip_spaces v = v"

definition text_value_of :: "'f pyval \<Rightarrow> py_error + 'f pyval" where
  "text_value_of annotation =
     bindE (py_get annotation (ustr ''ocr'') (PStr [])) (\<lambda>text_value. Inr (strip_spaces text_value))"

text \<open>
  \<^verbatim>\<open>';'.join(points)\<close>, and the polygon element once its label is known: the attributes in
  the order the code sets them, and the \<open>attribute\<close> child when \<open>with_text\<close> holds.
\<close>

fun join_semi :: "ustring list \<Rightarrow> ustring" where
  "join_semi [] = []"
| "join_semi [p] = p"
| "join_semi (p # q # ps) = p @ [59] @ join_semi (q # ps)"

definition polygon_elem ::
  "'f py_builtins \<Rightarrow> ustring \<Rightarrow> nat \<Rightarrow> ustring list \<Rightarrow> bool \<Rightarrow> 'f pyval \<Rightarrow> xml" where
  "polygon_elem ops label z_order points with_text text_value =
     (let e = Element (ustr ''polygon'') [] None [];
          e = xset (ustr ''label'') label e;
          e = xset (ustr ''source'') (ustr ''file'') e;
          e = xset (ustr ''occluded'') (ustr ''0'') e;
          e = xset (ustr ''z_order'') (str_int (int z_order)) e;
          e = xset (ustr ''points'') (join_semi points) e
      in if with_text then
           xappend (Element (ustr ''attribute'') [(ustr ''name'', ustr ''text'')]
                      (Some (escape_xml_text ops text_value)) []) e
         else e)"

text \<open>
  \<open>data_processing_1128.py\<close>, lines 204 to 219: the label is \<open>empty\<close> exactly when the
  text equals \<open>'empty'\<close>, and every other record gets the \<open>attribute\<close> child.
\<close>

definition polygon_of_1128 ::
  "'f py_builtins \<Rightarrow> nat \<Rightarrow> ustring list \<Rightarrow> 'f pyval \<Rightarrow> py_error + xml" where
  "polygon_of_1128 ops z_order points text_value =
     Inr (polygon_elem ops
            (if text_value = PStr (ustr ''empty'') then ustr ''empty'' else ustr ''text'')
            z_order points (text_value \<noteq> PStr (ustr ''empty'')) text_value)"

text \<open>
  \<open>data_processing_1212_merged.py\<close>, lines 221 to 235:
  \<^verbatim>\<open>if text_value and text_value.strip() and text_value != 'empty'\<close>. Only a \<open>str\<close> has
  \<open>strip\<close>; the \<open>attribute\<close> child is added when the label is \<open>text\<close>.
\<close>

fun has_text_merged :: "'f py_builtins \<Rightarrow> 'f pyval \<Rightarrow> py_error + bool" where
  "has_text_merged ops (PStr s) = Inr (s \<noteq> [] \<and> py_strip s \<noteq> [] \<and> s \<noteq> ustr ''empty'')"
| "has_text_merged ops v = (if truthy ops v then Inl AttributeError else Inr False)"

definition polygon_of_merged ::
  "'f py_builtins \<Rightarrow> nat \<Rightarrow> ustring list \<Rightarrow> 'f pyval \<Rightarrow> py_error + xml" where
  "polygon_of_merged ops z_order points text_value =
     bindE (has_text_merged ops text_value) (\<lambda>is_text.
     Inr (polygon_elem ops (if is_text then ustr ''text'' else ustr ''empty'')
            z_order points is_text text_value))"

subsection \<open>\<open>convert_result_json_to_xml\<close>\<close>

text \<open>
  The image element with its four attributes (lines 110 to 123): \<open>id\<close> is
  \<open>str(image_id - 1)\<close>, \<open>name\<close> the escaped file name (a \<open>str\<close> at every call), \<open>width\<close>
  and \<open>height\<close> come from the first entry of the source document's \<open>images\<close>, 0 when
  there is none.
\<close>

definition image_dims :: "'f py_builtins \<Rightarrow> 'f pyval \<Rightarrow> py_error + ('f pyval \<times> 'f pyval)" where
  "image_dims ops source_json_data =
     bindE (py_get source_json_data (ustr ''images'') (PList [])) (\<lambda>images.
     if truthy ops images then
       bindE (py_len images) (\<lambda>n.
       if 0 < n then
         bindE (py_index images 0) (\<lambda>first.
         bindE (py_get first (ustr ''convertedImageInfo'') (PDict [])) (\<lambda>converted_image_info.
         bindE (py_get converted_image_info (ustr ''width'') (PInt 0)) (\<lambda>width.
         bindE (py_get converted_image_info (ustr ''height'') (PInt 0)) (\<lambda>height.
         Inr (width, height)))))
       else Inr (PInt 0, PInt 0))
     else Inr (PInt 0, PInt 0))"

definition image_header ::
  "'f py_builtins \<Rightarrow> int \<Rightarrow> ustring \<Rightarrow> 'f pyval \<Rightarrow> py_error + xml" where
  "image_header ops image_id image_name source_json_data =
     (let image_elem = Element (ustr ''image'') [] None [];
          image_elem = xset (ustr ''id'') (str_int (image_id - 1)) image_elem;
          image_elem = xset (ustr ''name'') (escape_xml_text ops (PStr image_name)) image_elem
      in bindE (image_dims ops source_json_data) (\<lambda>(width, height).
         Inr (xset (ustr ''height'') (py_str ops height)
               (xset (ustr ''width'') (py_str ops width) image_elem))))"

text \<open>
  The loop over the annotation list, with \<open>image_elem\<close> and \<open>z_order\<close> as its state. A
  record with no points adds nothing and leaves \<open>z_order\<close> as it is. \<open>mk\<close> builds the
  polygon element (the two scripts differ there).
\<close>

fun annotations_loop ::
  "(nat \<Rightarrow> ustring list \<Rightarrow> 'f pyval \<Rightarrow> py_error + xml) \<Rightarrow> 'f py_builtins \<Rightarrow> 'f pyval list
     \<Rightarrow> nat \<Rightarrow> xml \<Rightarrow> py_error + xml" where
  "annotations_loop mk ops [] z_order image_elem = Inr image_elem"
| "annotations_loop mk ops (annotation # rest) z_order image_elem =
     bindE (annotation_points ops annotation) (\<lambda>points.
     if points \<noteq> [] then
       bindE (text_value_of annotation) (\<lambda>text_value.
       bindE (mk z_order points text_value) (\<lambda>polygon.
       annotations_loop mk ops rest (Suc z_order) (xappend polygon image_elem)))
     else annotations_loop mk ops rest z_order image_elem)"

text \<open>
  From \<open>results\<close> to the loop (lines 126 to 142; 141 to 157 of the merged script):
  nothing is added when \<open>results\<close> is empty or has fewer than two entries, when the data
  row is empty, when its first cell is \<open>None\<close> or no dict, or when the dict lacks the
  annotation key.
\<close>

definition payload ::
  "(nat \<Rightarrow> ustring list \<Rightarrow> 'f pyval \<Rightarrow> py_error + xml) \<Rightarrow> ustring \<Rightarrow> 'f py_builtins \<Rightarrow> 'f pyval
     \<Rightarrow> xml \<Rightarrow> py_error + xml" where
  "payload mk coord_key ops result_json_data image_elem =
     bindE (py_get result_json_data (ustr ''results'') (PList [])) (\<lambda>results.
     if \<not> truthy ops results then Inr image_elem
     else
       bindE (py_len results) (\<lambda>n.
       if n < 2 then Inr image_elem
       else
         bindE (py_index results 1) (\<lambda>data_row.
         bindE (py_len data_row) (\<lambda>m.
         if 0 < m then
           bindE (py_index data_row 0) (\<lambda>annotations.
           if annotations \<noteq> PNone then
             (case annotations of
                PDict kv \<Rightarrow>
                  (case map_of kv coord_key of
                     Some annotation_list \<Rightarrow>
                       bindE (py_iter annotation_list) (\<lambda>items.
                       annotations_loop mk ops items 0 image_elem)
                   | None \<Rightarrow> Inr image_elem)
              | _ \<Rightarrow> Inr image_elem)
           else Inr image_elem)
         else Inr image_elem))))"

text \<open>\<open>convert_result_json_to_xml\<close> of \<open>data_processing_1128.py\<close>.\<close>

definition convert_result_json_to_xml ::
  "'f py_builtins \<Rightarrow> 'f pyval \<Rightarrow> int \<Rightarrow> ustring \<Rightarrow> 'f pyval \<Rightarrow> py_error + xml" where
  "convert_result_json_to_xml ops result_json_data image_id image_name source_json_data =
     bindE (image_header ops image_id image_name source_json_data)
       (payload (polygon_of_1128 ops) (ustr ''name_5OJYEV'') ops result_json_data)"

text \<open>
  \<open>convert_result_json_to_xml\<close> of \<open>data_processing_1212_merged.py\<close>: the annotation key
  follows the difficulty (U+C911, 51473, is the middle tier), the index of the data row
  is 1 for both tiers.
\<close>

definition jung :: ustring where
  "jung = [51473]"

definition sang :: ustring where
  "sang = [49345]"

definition convert_result_json_to_xml_merged ::
  "'f py_builtins \<Rightarrow> 'f pyval \<Rightarrow> int \<Rightarrow> ustring \<Rightarrow> 'f pyval \<Rightarrow> 'f pyval \<Rightarrow> py_error + xml" where
  "convert_result_json_to_xml_merged ops result_json_data image_id image_name source_json_data
       difficulty =
     bindE (image_header ops image_id image_name source_json_data)
       (payload (polygon_of_merged ops)
          (if difficulty = PStr jung then ustr ''name_RRMP0X'' else ustr ''name_5OJYEV'')
          ops result_json_data)"

subsection \<open>Reading the result, and inputs to run the model on\<close>

text \<open>The labels of the polygon children of an image element, and the texts of their children.\<close>

definition polygon_labels :: "xml \<Rightarrow> ustring option list" where
  "polygon_labels image_elem = map (\<lambda>p. xget p (ustr ''label'')) (xchildren image_elem)"

definition polygon_texts :: "xml \<Rightarrow> ustring option list list" where
  "polygon_texts image_elem = map (\<lambda>p. map xtext (xchildren p)) (xchildren image_elem)"

definition polygon_points_attr :: "xml \<Rightarrow> ustring option list" where
  "polygon_points_attr image_elem = map (\<lambda>p. xget p (ustr ''points'')) (xchildren image_elem)"

text \<open>
  A \<open>BOX\<close> record with the box left 0, top 0, width 10, height 20 and the given
  transcription; a result document with a header row and one payload cell that holds
  the records under the given key; a source document with the given dimensions.
\<close>

definition box_record :: "'f pyval \<Rightarrow> 'f pyval" where
  "box_record ocr =
     PDict [(ustr ''annotation'', PStr (ustr ''BOX'')),
            (ustr ''object'', PDict [(ustr ''left'', PInt 0), (ustr ''top'', PInt 0),
                                   (ustr ''width'', PInt 10), (ustr ''height'', PInt 20)]),
            (ustr ''ocr'', ocr)]"

definition result_doc :: "ustring \<Rightarrow> 'f pyval list \<Rightarrow> 'f pyval" where
  "result_doc key records =
     PDict [(ustr ''results'', PList [PList [PStr (ustr ''header'')], PList [PDict [(key, PList records)]]])]"

definition source_doc :: "int \<Rightarrow> int \<Rightarrow> 'f pyval" where
  "source_doc w h =
     PDict [(ustr ''images'',
             PList [PDict [(ustr ''convertedImageInfo'',
                            PDict [(ustr ''width'', PInt w), (ustr ''height'', PInt h)])]])]"






section \<open>The loop over the manifest\<close>

text \<open>
  A row of the manifest as \<open>process_csv_to_xml\<close> reads it: the cells \<open>data_idx\<close> and
  \<open>file_name\<close>, and \<open>difficulty\<close> for the column of the difficulty tag that the merged
  script reads. The manifest has these columns. \<open>pd.read_csv\<close> numbers the rows from 0,
  so \<open>idx\<close> of \<open>df.iterrows()\<close> is the position of the row.

  The file system and \<open>json\<close> are outside the program; the model reads them from \<open>env\<close>:
  \<^item> \<open>json_loads v\<close> is \<open>json.loads(v)\<close>, \<open>None\<close> when it raises;
  \<^item> \<open>listdir d\<close> is \<open>os.listdir(d)\<close>, \<open>None\<close> when it raises;
  \<^item> \<open>path_exists d f\<close> says whether the file \<open>f\<close> of the directory \<open>d\<close> exists;
  \<^item> \<open>read_json d f\<close> is the parsed content of that file, \<open>None\<close> when opening or
    parsing it raises.
  The messages the loop prints are left out.
\<close>

record 'f row =
  data_idx :: "'f pyval"
  file_name :: "'f pyval"
  difficulty :: "'f pyval"

record 'f env =
  json_loads :: "'f pyval \<Rightarrow> 'f pyval option"
  listdir :: "ustring \<Rightarrow> ustring list option"
  path_exists :: "ustring \<Rightarrow> ustring \<Rightarrow> bool"
  read_json :: "ustring \<Rightarrow> ustring \<Rightarrow> 'f pyval option"

text \<open>
  \<open>extract_filename_from_csv\<close>: the \<open>file_name\<close> of the parsed cell, and the cell itself
  when parsing raises or the parsed value has no \<open>get\<close>. \<open>load_json_data\<close>: the parsed
  file, \<open>None\<close> on any exception.
\<close>

definition extract_filename_from_csv :: "'f env \<Rightarrow> 'f pyval \<Rightarrow> 'f pyval" where
  "extract_filename_from_csv env file_name_str =
     (case json_loads env file_name_str of
        None \<Rightarrow> file_name_str
      | Some data \<Rightarrow>
          (case py_get data (ustr ''file_name'') (PStr []) of
             Inl e \<Rightarrow> file_name_str
           | Inr v \<Rightarrow> v))"

definition load_json_data :: "'f env \<Rightarrow> ustring \<Rightarrow> ustring \<Rightarrow> 'f pyval" where
  "load_json_data env dir name = (case read_json env dir name of None \<Rightarrow> PNone | Some v \<Rightarrow> v)"

definition endswith :: "ustring \<Rightarrow> ustring \<Rightarrow> bool" where
  "endswith s p = startswith (rev s) (rev p)"

text \<open>
  What the body of the loop does with one row: it goes on to the next row and leaves
  everything as it is (\<open>Skipped\<close>), it adds a name to \<open>missing_files\<close> and goes on
  (\<open>Missing\<close>), or it appends an image element to the root and counts the row
  (\<open>Built\<close>). An exception leaves the loop and the function.
\<close>

datatype row_outcome = Skipped | Missing ustring | Built xml

record run_state =
  images :: "xml list"
  missing_files :: "ustring list"
  processed_count :: nat

fun apply_outcome :: "row_outcome \<Rightarrow> run_state \<Rightarrow> run_state" where
  "apply_outcome Skipped st = st"
| "apply_outcome (Missing name) st = st\<lparr>missing_files := missing_files st @ [name]\<rparr>"
| "apply_outcome (Built image_elem) st =
     st\<lparr>images := images st @ [image_elem], processed_count := processed_count st + 1\<rparr>"

text \<open>\<open>data_processing_1128.py\<close>, lines 296 to 346.\<close>

definition row_outcome_1128 ::
  "'f py_builtins \<Rightarrow> 'f env \<Rightarrow> ustring \<Rightarrow> ustring \<Rightarrow> nat \<Rightarrow> 'f row \<Rightarrow> py_error + row_outcome" where
  "row_outcome_1128 ops env result_json_dir source_json_dir idx row =
     (let actual_filename = extract_filename_from_csv env (file_name row) in
      if \<not> truthy ops actual_filename then Inr Skipped
      else
        (case listdir env result_json_dir of
           None \<Rightarrow> Inl FileNotFoundError
         | Some files \<Rightarrow>
            (let result_json_files =
                   filter (\<lambda>file. startswith file (py_str ops (data_idx row) @ ustr ''_'')
                                  \<and> endswith file (ustr ''.json'')) files
             in if result_json_files = [] then
                  Inr (Missing (py_str ops (data_idx row) @ ustr ''_result''))
                else
                  (case actual_filename of
                     PStr name \<Rightarrow>
                       (let source_json_filename =
                              py_replace (ustr ''.jpg'') (ustr ''.json'')
                                (py_replace (ustr ''.JPG'') (ustr ''.json'') name)
                        in if \<not> path_exists env source_json_dir source_json_filename then
                             Inr (Missing source_json_filename)
                           else
                             (let result_json_data =
                                    load_json_data env result_json_dir (hd result_json_files);
                                  source_json_data =
                                    load_json_data env source_json_dir source_json_filename
                              in if \<not> truthy ops result_json_data \<or> \<not> truthy ops source_json_data
                                 then Inr Skipped
                                 else
                                   bindE (convert_result_json_to_xml ops result_json_data
                                            (int idx + 1) name source_json_data)
                                     (\<lambda>image_elem. Inr (Built image_elem))))
                   | _ \<Rightarrow> Inl AttributeError))))"

fun process_rows_1128 ::
  "'f py_builtins \<Rightarrow> 'f env \<Rightarrow> ustring \<Rightarrow> ustring \<Rightarrow> nat \<Rightarrow> 'f row list \<Rightarrow> run_state
     \<Rightarrow> py_error + run_state" where
  "process_rows_1128 ops env rdir sdir idx [] st = Inr st"
| "process_rows_1128 ops env rdir sdir idx (row # rest) st =
     bindE (row_outcome_1128 ops env rdir sdir idx row) (\<lambda>outcome.
     process_rows_1128 ops env rdir sdir (Suc idx) rest (apply_outcome outcome st))"

text \<open>
  \<open>data_processing_1212_merged.py\<close>, lines 304 to 369. The four directories are fixed
  paths in the script; here they are the record \<open>dirs\<close>. After the conversion the
  script reads \<open>width\<close> and \<open>height\<close> back with \<open>int\<close> for a warning, which raises
  \<open>ValueError\<close> on a text that is no integer.
\<close>

record merged_dirs =
  result_json_dir_hard :: ustring
  result_json_dir_very_hard :: ustring
  source_json_dir_hard :: ustring
  source_json_dir_very_hard :: ustring

definition int_attr :: "'f py_builtins \<Rightarrow> xml \<Rightarrow> ustring \<Rightarrow> py_error + int" where
  "int_attr ops image_elem key =
     (case xget image_elem key of
        None \<Rightarrow> Inr 0
      | Some s \<Rightarrow> (case int_of_str ops s of None \<Rightarrow> Inl ValueError | Some n \<Rightarrow> Inr n))"

definition row_outcome_merged ::
  "'f py_builtins \<Rightarrow> 'f env \<Rightarrow> merged_dirs \<Rightarrow> nat \<Rightarrow> 'f row \<Rightarrow> py_error + row_outcome" where
  "row_outcome_merged ops env dirs idx row =
     (let actual_filename = extract_filename_from_csv env (file_name row) in
      if \<not> truthy ops actual_filename then Inr Skipped
      else if difficulty row \<noteq> PStr jung \<and> difficulty row \<noteq> PStr sang then Inr Skipped
      else
        (let result_json_dir =
               (if difficulty row = PStr jung then result_json_dir_hard dirs
                else result_json_dir_very_hard dirs);
             source_json_dir =
               (if difficulty row = PStr jung then source_json_dir_hard dirs
                else source_json_dir_very_hard dirs)
         in case listdir env result_json_dir of
           None \<Rightarrow> Inl FileNotFoundError
         | Some files \<Rightarrow>
            (let result_json_files =
                   filter (\<lambda>file. startswith file (py_str ops (data_idx row) @ ustr ''_'')
                                  \<and> endswith file (ustr ''.json'')) files
             in if result_json_files = [] then
                  Inr (Missing (py_str ops (data_idx row) @ ustr ''_result_''
                                  @ py_str ops (difficulty row)))
                else
                  (case actual_filename of
                     PStr name \<Rightarrow>
                       (let source_json_filename =
                              py_replace (ustr ''.jpg'') (ustr ''.json'') name
                        in if \<not> path_exists env source_json_dir source_json_filename then
                             Inr (Missing source_json_filename)
                           else
                             (let result_json_data =
                                    load_json_data env result_json_dir (hd result_json_files);
                                  source_json_data =
                                    load_json_data env source_json_dir source_json_filename
                              in if \<not> truthy ops result_json_data \<or> \<not> truthy ops source_json_data
                                 then Inr Skipped
                                 else
                                   bindE (convert_result_json_to_xml_merged ops result_json_data
                                            (int idx + 1) name source_json_data (difficulty row))
                                     (\<lambda>image_elem.
                                   bindE (int_attr ops image_elem (ustr ''width'')) (\<lambda>width.
                                   bindE (int_attr ops image_elem (ustr ''height'')) (\<lambda>height.
                                   Inr (Built image_elem))))))
                   | _ \<Rightarrow> Inl AttributeError))))"

fun process_rows_merged ::
  "'f py_builtins \<Rightarrow> 'f env \<Rightarrow> merged_dirs \<Rightarrow> nat \<Rightarrow> 'f row list \<Rightarrow> run_state
     \<Rightarrow> py_error + run_state" where
  "process_rows_merged ops env dirs idx [] st = Inr st"
| "process_rows_merged ops env dirs idx (row # rest) st =
     bindE (row_outcome_merged ops env dirs idx row) (\<lambda>outcome.
     process_rows_merged ops env dirs (Suc idx) rest (apply_outcome outcome st))"

definition initial_state :: run_state where
  "initial_state = \<lparr>images = [], missing_files = [], processed_count = 0\<rparr>"

text \<open>
  The image elements the loop builds, each with the position of its row: what the loop
  appends to the root, in the order it appends.
\<close>

fun built_images ::
  "'f py_builtins \<Rightarrow> 'f env \<Rightarrow> ustring \<Rightarrow> ustring \<Rightarrow> nat \<Rightarrow> 'f row list \<Rightarrow> (nat \<times> xml) list" where
  "built_images ops env rdir sdir idx [] = []"
| "built_images ops env rdir sdir idx (row # rest) =
     (case row_outcome_1128 ops env rdir sdir idx row of
        Inr (Built image_elem) \<Rightarrow> [(idx, image_elem)]
      | _ \<Rightarrow> [])
     @ built_images ops env rdir sdir (Suc idx) rest"

text \<open>
  A small world to run the loop in: the result directory \<open>res\<close> holds \<open>7_a.json\<close> and
  \<open>8_b.json\<close> (a result document with one box each), the source directory \<open>src\<close> holds
  \<open>a.json\<close> and \<open>b.json\<close>; the cells of the manifest are no JSON (\<open>json.loads\<close> raises).
\<close>

definition small_env :: "unit env" where
  "small_env =
     \<lparr> json_loads = (\<lambda>v. None),
       listdir = (\<lambda>d. if d = ustr ''res'' then Some [ustr ''7_a.json'', ustr ''8_b.json''] else None),
       path_exists = (\<lambda>d f. d = ustr ''src'' \<and> (f = ustr ''a.json'' \<or> f = ustr ''b.json'')),
       read_json = (\<lambda>d f.
          if d = ustr ''res'' \<and> (f = ustr ''7_a.json'' \<or> f = ustr ''8_b.json'')
          then Some (result_doc (ustr ''name_5OJYEV'') [box_record (PStr (ustr ''ab''))])
          else if d = ustr ''src'' \<and> (f = ustr ''a.json'' \<or> f = ustr ''b.json'')
          then Some (source_doc 640 480)
          else None) \<rparr>"

definition small_dirs :: merged_dirs where
  "small_dirs = \<lparr> result_json_dir_hard = ustr ''res'', result_json_dir_very_hard = ustr ''res'',
     source_json_dir_hard = ustr ''src'', source_json_dir_very_hard = ustr ''src'' \<rparr>"

definition manifest_row :: "int \<Rightarrow> ustring \<Rightarrow> ustring \<Rightarrow> unit row" where
  "manifest_row i name tier = \<lparr> data_idx = PInt i, file_name = PStr name, difficulty = PStr tier \<rparr>"

text \<open>Builtins that read the two widths of the small world back as integers.\<close>

definition small_builtins :: "unit py_builtins" where
  "small_builtins =
     no_floats \<lparr> int_of_str := (\<lambda>s. if s = ustr ''640'' then Some 640
                                   else if s = ustr ''480'' then Some 480 else None) \<rparr>"

section \<open>Timestamps\<close>

text \<open>
  A naive \<open>datetime\<close> of Python: a date of the proleptic Gregorian calendar with the
  years 1 to 9999, and a time of day (the formats of the program carry no fraction of a
  second).
\<close>

record datetime =
  dt_year :: int
  dt_month :: int
  dt_day :: int
  dt_hour :: int
  dt_minute :: int
  dt_second :: int

definition is_leap :: "int \<Rightarrow> bool" where
  "is_leap y = (y mod 4 = 0 \<and> (y mod 100 \<noteq> 0 \<or> y mod 400 = 0))"

definition days_in_month :: "int \<Rightarrow> int \<Rightarrow> int" where
  "days_in_month y m =
     (if m = 2 then (if is_leap y then 29 else 28)
      else if m = 4 \<or> m = 6 \<or> m = 9 \<or> m = 11 then 30 else 31)"

definition valid_datetime :: "datetime \<Rightarrow> bool" where
  "valid_datetime dt =
     (1 \<le> dt_year dt \<and> dt_year dt \<le> 9999 \<and> 1 \<le> dt_month dt \<and> dt_month dt \<le> 12
      \<and> 1 \<le> dt_day dt \<and> dt_day dt \<le> days_in_month (dt_year dt) (dt_month dt)
      \<and> 0 \<le> dt_hour dt \<and> dt_hour dt < 24 \<and> 0 \<le> dt_minute dt \<and> dt_minute dt < 60
      \<and> 0 \<le> dt_second dt \<and> dt_second dt < 60)"

text \<open>
  \<^verbatim>\<open>dt - timedelta(hours=9)\<close>: the same wall clock nine hours back, on the day before when
  the hour is below 9; \<open>OverflowError\<close> (here \<open>None\<close>) when that day would lie before
  the first day of the year 1.
\<close>

definition sub_hours9 :: "datetime \<Rightarrow> datetime option" where
  "sub_hours9 dt =
     (if 9 \<le> dt_hour dt then Some (dt\<lparr>dt_hour := dt_hour dt - 9\<rparr>)
      else if 1 < dt_day dt then
        Some (dt\<lparr>dt_day := dt_day dt - 1, dt_hour := dt_hour dt + 15\<rparr>)
      else if 1 < dt_month dt then
        Some (dt\<lparr>dt_month := dt_month dt - 1,
                 dt_day := days_in_month (dt_year dt) (dt_month dt - 1),
                 dt_hour := dt_hour dt + 15\<rparr>)
      else if 1 < dt_year dt then
        Some (dt\<lparr>dt_year := dt_year dt - 1, dt_month := 12, dt_day := 31,
                 dt_hour := dt_hour dt + 15\<rparr>)
      else None)"

text \<open>
  The seconds from 0001-01-01 00:00:00 to a datetime: the measure "nine hours earlier"
  is stated in.
\<close>

definition days_before_year :: "int \<Rightarrow> int" where
  "days_before_year y = (y - 1) * 365 + (y - 1) div 4 - (y - 1) div 100 + (y - 1) div 400"

definition days_before_month :: "int \<Rightarrow> int \<Rightarrow> int" where
  "days_before_month y m = sum_list (map (days_in_month y) [1..m - 1])"

definition instant :: "datetime \<Rightarrow> int" where
  "instant dt =
     (days_before_year (dt_year dt) + days_before_month (dt_year dt) (dt_month dt)
        + dt_day dt - 1) * 86400
     + dt_hour dt * 3600 + dt_minute dt * 60 + dt_second dt"

text \<open>
  \<open>datetime.strptime\<close> and \<open>strftime\<close> belong to the library: \<open>strptime v fmt\<close> is the
  parsed datetime, \<open>None\<close> when it raises (\<open>ValueError\<close> on a string that does not match,
  \<open>TypeError\<close> on a value that is no string).
\<close>

record 'f time_lib =
  strptime :: "'f pyval \<Rightarrow> ustring \<Rightarrow> datetime option"
  strftime :: "datetime \<Rightarrow> ustring \<Rightarrow> ustring"

definition fmt_T :: ustring where
  "fmt_T = ustr ''%Y-%m-%dT%H:%M:%S''"

definition fmt_space :: ustring where
  "fmt_space = ustr ''%Y-%m-%d %H:%M:%S''"

definition fmt_out :: ustring where
  "fmt_out = ustr ''%Y-%m-%d %H:%M:%S+09:00''"

text \<open>
  \<open>add_timezone_to_datetime\<close>: the body of one \<open>try\<close> (parse with a format, go back nine
  hours, format), and the two \<open>try\<close> blocks, whose bare \<open>except\<close> catches every
  exception; the last \<open>except\<close> returns the argument.
\<close>

definition shift_with :: "'f time_lib \<Rightarrow> ustring \<Rightarrow> 'f pyval \<Rightarrow> py_error + ustring" where
  "shift_with lib fmt datetime_str =
     (case strptime lib datetime_str fmt of
        None \<Rightarrow> Inl ValueError
      | Some dt \<Rightarrow>
          (case sub_hours9 dt of
             None \<Rightarrow> Inl OverflowError
           | Some utc_dt \<Rightarrow> Inr (strftime lib utc_dt fmt_out)))"

definition add_timezone_to_datetime :: "'f time_lib \<Rightarrow> 'f pyval \<Rightarrow> 'f pyval" where
  "add_timezone_to_datetime lib datetime_str =
     (case shift_with lib fmt_T datetime_str of
        Inr r \<Rightarrow> PStr r
      | Inl e \<Rightarrow>
          (case shift_with lib fmt_space datetime_str of
             Inr r \<Rightarrow> PStr r
           | Inl e' \<Rightarrow> datetime_str))"

text \<open>
  A library to run the function with: it parses four strings, and writes a datetime
  with two digits for every field but the year (which has four digits in the examples).
\<close>

definition pad2 :: "int \<Rightarrow> ustring" where
  "pad2 n = (if n < 10 then 48 # str_int n else str_int n)"

definition render_out :: "datetime \<Rightarrow> ustring" where
  "render_out dt =
     str_int (dt_year dt) @ ustr ''-'' @ pad2 (dt_month dt) @ ustr ''-'' @ pad2 (dt_day dt)
     @ ustr '' '' @ pad2 (dt_hour dt) @ ustr '':'' @ pad2 (dt_minute dt) @ ustr '':''
     @ pad2 (dt_second dt) @ ustr ''+09:00''"

definition small_time_lib :: "unit time_lib" where
  "small_time_lib =
     \<lparr> strptime = (\<lambda>v fmt.
         if v = PStr (ustr ''0001-01-01T05:00:00'') \<and> fmt = fmt_T then
           Some \<lparr>dt_year = 1, dt_month = 1, dt_day = 1, dt_hour = 5, dt_minute = 0, dt_second = 0\<rparr>
         else if v = PStr (ustr ''2024-03-01T05:00:00'') \<and> fmt = fmt_T then
           Some \<lparr>dt_year = 2024, dt_month = 3, dt_day = 1, dt_hour = 5, dt_minute = 0, dt_second = 0\<rparr>
         else if v = PStr (ustr ''2024-03-01 12:30:00'') \<and> fmt = fmt_space then
           Some \<lparr>dt_year = 2024, dt_month = 3, dt_day = 1, dt_hour = 12, dt_minute = 30, dt_second = 0\<rparr>
         else if v = PStr (ustr ''0001-01-01 05:00:00'') \<and> fmt = fmt_space then
           Some \<lparr>dt_year = 1, dt_month = 1, dt_day = 1, dt_hour = 5, dt_minute = 0, dt_second = 0\<rparr>
         else None),
       strftime = (\<lambda>dt fmt. render_out dt) \<rparr>"

subsection \<open>Documents with no annotation\<close>

text \<open>
  A result document with no annotation to read: an object whose \<open>results\<close> array has
  fewer than two entries, or whose payload cell, the first element of \<open>results[1]\<close>, is
  null.
\<close>

fun null_payload_cell :: "'f pyval \<Rightarrow> bool" where
  "null_payload_cell (PList (PNone # cells)) = True"
| "null_payload_cell data_row = False"

definition zero_annotation_doc :: "'f pyval \<Rightarrow> bool" where
  "zero_annotation_doc result_json_data =
     (case result_json_data of
        PDict kv \<Rightarrow>
          (case map_of kv (ustr ''results'') of
             Some (PList results) \<Rightarrow> length results < 2 \<or> null_payload_cell (results ! 1)
           | _ \<Rightarrow> False)
      | _ \<Rightarrow> False)"

text \<open>
  A source document the dimensions can be read from: an object whose \<open>images\<close> is absent
  or empty (any value that counts as false), or a list whose first entry is an object
  with \<open>convertedImageInfo\<close> absent or an object. \<open>source_dim key\<close> is the dimension
  read: the value under \<open>key\<close> of that \<open>convertedImageInfo\<close>, and 0 when there is none.
\<close>

definition readable_source :: "'f py_builtins \<Rightarrow> 'f pyval \<Rightarrow> bool" where
  "readable_source ops source_json_data =
     (case source_json_data of
        PDict kv \<Rightarrow>
          (case map_of kv (ustr ''images'') of
             None \<Rightarrow> True
           | Some image_list \<Rightarrow>
               \<not> truthy ops image_list
               \<or> (case image_list of
                     PList (PDict first # others) \<Rightarrow>
                       (case map_of first (ustr ''convertedImageInfo'') of
                          None \<Rightarrow> True
                        | Some (PDict info) \<Rightarrow> True
                        | Some _ \<Rightarrow> False)
                   | _ \<Rightarrow> False))
      | _ \<Rightarrow> False)"

definition source_dim :: "ustring \<Rightarrow> 'f pyval \<Rightarrow> 'f pyval" where
  "source_dim key source_json_data =
     (case source_json_data of
        PDict kv \<Rightarrow>
          (case map_of kv (ustr ''images'') of
             Some (PList (PDict first # others)) \<Rightarrow>
               (case map_of first (ustr ''convertedImageInfo'') of
                  Some (PDict info) \<Rightarrow> (case map_of info key of Some v \<Rightarrow> v | None \<Rightarrow> PInt 0)
                | _ \<Rightarrow> PInt 0)
           | _ \<Rightarrow> PInt 0)
      | _ \<Rightarrow> PInt 0)"

text \<open>
  The image element with its four attributes and no child, as the builder returns it
  when there is no annotation to read.
\<close>

definition image_without_children ::
  "'f py_builtins \<Rightarrow> int \<Rightarrow> ustring \<Rightarrow> 'f pyval \<Rightarrow> xml" where
  "image_without_children ops image_id image_name source_json_data =
     Element (ustr ''image'')
       [(ustr ''id'', str_int (image_id - 1)),
        (ustr ''name'', escape_xml_text ops (PStr image_name)),
        (ustr ''width'', py_str ops (source_dim (ustr ''width'') source_json_data)),
        (ustr ''height'', py_str ops (source_dim (ustr ''height'') source_json_data))] None []"

text \<open>
  A world with one row to process: the result directory \<open>res\<close> holds \<open>7_a.json\<close> with
  the given result document, the source directory \<open>src\<close> holds \<open>a.json\<close> with the given
  source document.
\<close>

definition one_file_env :: "unit pyval \<Rightarrow> unit pyval \<Rightarrow> unit env" where
  "one_file_env result_json_data source_json_data =
     \<lparr> json_loads = (\<lambda>v. None),
       listdir = (\<lambda>d. if d = ustr ''res'' then Some [ustr ''7_a.json''] else None),
       path_exists = (\<lambda>d f. d = ustr ''src'' \<and> f = ustr ''a.json''),
       read_json = (\<lambda>d f.
          if d = ustr ''res'' \<and> f = ustr ''7_a.json'' then Some result_json_data
          else if d = ustr ''src'' \<and> f = ustr ''a.json'' then Some source_json_data
          else None) \<rparr>"

section \<open>Auxiliary lemmas\<close>

subsection \<open>The formatter\<close>

lemma split_nl_ne [simp]: "split_nl s \<noteq> []"
  by (induction s) (auto split: list.splits)

lemma split_nl_no_nl: "l \<in> set (split_nl s) \<Longrightarrow> 10 \<notin> set l"
  by (induction s arbitrary: l) (auto split: list.splits if_splits)

lemma join_split [simp]: "join_nl (split_nl s) = s"
proof (induction s)
  case Nil show ?case by simp
next
  case (Cons c cs)
  obtain l ls where sp: "split_nl cs = l # ls" by (cases "split_nl cs") auto
  show ?case
  proof (cases "c = 10")
    case True
    with Cons sp show ?thesis by simp
  next
    case False
    with Cons sp show ?thesis by (cases ls) auto
  qed
qed

lemma split_nl_line: "10 \<notin> set l \<Longrightarrow> split_nl l = [l]"
  by (induction l) auto

lemma split_nl_append: "10 \<notin> set l \<Longrightarrow> split_nl (l @ 10 # r) = l # split_nl r"
  by (induction l) auto

lemma split_join:
  "ls \<noteq> [] \<Longrightarrow> \<forall>l \<in> set ls. 10 \<notin> set l \<Longrightarrow> split_nl (join_nl ls) = ls"
  by (induction ls rule: join_nl.induct) (auto simp: split_nl_line split_nl_append)

lemma rel_loop_scan:
  "0 < i \<Longrightarrow> cleaned \<noteq> [] \<Longrightarrow> rel_loop i ls cleaned = cleaned @ scan (last cleaned) ls"
proof (induction ls arbitrary: i cleaned)
  case Nil
  then show ?case by simp
next
  case (Cons l ls)
  show ?case
  proof (cases "drops (last cleaned) l")
    case True
    then have "rel_loop i (l # ls) cleaned = rel_loop (Suc i) ls cleaned"
      using Cons.prems by (auto simp: drops_def Let_def)
    then show ?thesis using Cons True by simp
  next
    case False
    then have "rel_loop i (l # ls) cleaned = rel_loop (Suc i) ls (cleaned @ [l])"
      using Cons.prems by (auto simp: drops_def Let_def)
    then show ?thesis using Cons False by simp
  qed
qed

lemma rel_loop_0: "rel_loop 0 (l # rest) [] = l # scan l rest"
  by (simp add: rel_loop_scan Let_def)

lemma scan_idem: "scan prev (scan prev ls) = scan prev ls"
  by (induction ls arbitrary: prev) auto

lemma set_scan: "set (scan prev ls) \<subseteq> set ls"
  by (induction ls arbitrary: prev) auto

lemma rel_loop_idem: "rel_loop 0 (rel_loop 0 ls []) [] = rel_loop 0 ls []"
proof (cases ls)
  case Nil
  then show ?thesis by simp
next
  case (Cons l rest)
  then show ?thesis by (simp only: rel_loop_0 scan_idem)
qed

lemma rel_loop_lines:
  "ls \<noteq> [] \<Longrightarrow> rel_loop 0 ls [] \<noteq> [] \<and> set (rel_loop 0 ls []) \<subseteq> set ls"
proof (cases ls)
  case Nil
  assume "ls \<noteq> []"
  with Nil show ?thesis by simp
next
  case (Cons l rest)
  have "set (scan l rest) \<subseteq> set rest" by (rule set_scan)
  then show ?thesis unfolding Cons rel_loop_0 by auto
qed

lemma remove_empty_lines_idem:
  "remove_empty_lines (remove_empty_lines s) = remove_empty_lines s"
proof -
  let ?K = "rel_loop 0 (split_nl s) []"
  have ne: "?K \<noteq> []" and sub: "set ?K \<subseteq> set (split_nl s)"
    using rel_loop_lines [of "split_nl s"] by simp_all
  have "\<forall>l \<in> set ?K. 10 \<notin> set l"
    using sub split_nl_no_nl by blast
  then have "split_nl (join_nl ?K) = ?K"
    using ne by (rule split_join [rotated])
  then show ?thesis
    by (simp add: remove_empty_lines_def rel_loop_idem)
qed

lemma has_slash_gt_Cons: "has_slash_gt cs \<Longrightarrow> has_slash_gt (c # cs)"
  by (cases cs) auto

lemma has_slash_gt_dropWhile: "has_slash_gt (dropWhile P cs) \<Longrightarrow> has_slash_gt cs"
  by (induction cs) (auto simp: has_slash_gt_Cons split: if_splits)

lemma find_close_has: "find_close xs = Some p \<Longrightarrow> has_slash_gt xs"
proof (induction xs arbitrary: p)
  case Nil
  then show ?case by simp
next
  case (Cons c cs)
  then show ?case
    by (cases cs) (auto split: if_splits option.splits prod.splits)
qed

lemma fix_empty_tags_id: "\<not> has_slash_gt s \<Longrightarrow> fix_empty_tags uw s = s"
proof (induction uw s rule: fix_empty_tags.induct)
  case (1 uw)
  then show ?case by simp
next
  case (2 uw c cs)
  have ncs: "\<not> has_slash_gt cs" using "2.prems" has_slash_gt_Cons by blast
  then have "find_close (dropWhile (is_word uw) cs) = None"
    using find_close_has has_slash_gt_dropWhile by (metis not_Some_eq)
  then show ?case using 2 ncs by simp
qed

subsection \<open>Filename sanitization\<close>

text \<open>
  \<open>runs\<close> is the split into maximal runs: the runs put together give the list, no run
  is empty, the predicate is constant on a run, and it changes from a run to the next.
\<close>

lemma concat_runs: "concat (runs P xs) = xs"
  by (induction P xs rule: runs.induct) simp_all

lemma runs_nonempty: "r \<in> set (runs P xs) \<Longrightarrow> r \<noteq> []"
  by (induction P xs rule: runs.induct) auto

lemma runs_constant: "r \<in> set (runs P xs) \<Longrightarrow> y \<in> set r \<Longrightarrow> P y = P (hd r)"
  by (induction P xs rule: runs.induct) (auto dest: set_takeWhileD)

lemma runs_hd: "runs P xs = r # rs \<Longrightarrow> xs \<noteq> [] \<and> hd r = hd xs"
  by (cases xs) auto

lemma runs_adjacent:
  "runs P xs = pre @ r1 # r2 # post \<Longrightarrow> P (hd r2) \<noteq> P (hd r1)"
proof (induction P xs arbitrary: pre rule: runs.induct)
  case (1 P)
  then show ?case by simp
next
  case (2 P x xs)
  let ?dw = "dropWhile (\<lambda>y. P y = P x) xs"
  show ?case
  proof (cases pre)
    case Nil
    with "2.prems" have r1: "r1 = x # takeWhile (\<lambda>y. P y = P x) xs"
      and rest: "runs P ?dw = r2 # post" by simp_all
    from rest have ne: "?dw \<noteq> []" and h: "hd r2 = hd ?dw" using runs_hd by blast+
    from ne have "\<not> (P (hd ?dw) = P x)" by (rule hd_dropWhile)
    with r1 h show ?thesis by simp
  next
    case (Cons p pre')
    with "2.prems" have "runs P ?dw = pre' @ r1 # r2 # post" by simp
    then show ?thesis by (rule "2.IH")
  qed
qed

lemma sub_dot_runs_spec:
  "sub_dot_runs s = concat (map (\<lambda>r. if is_dot_hyphen (hd r) then [46] else r) (runs is_dot_hyphen s))"
proof (induction s rule: sub_dot_runs.induct)
  case 1
  then show ?case by simp
next
  case (2 c cs)
  show ?case
  proof (cases "is_dot_hyphen c")
    case True
    then have "(\<lambda>y. is_dot_hyphen y = is_dot_hyphen c) = is_dot_hyphen" by auto
    with True 2 show ?thesis by simp
  next
    case False
    then have eq: "(\<lambda>y. is_dot_hyphen y = is_dot_hyphen c) = (\<lambda>y. \<not> is_dot_hyphen y)" by auto
    show ?thesis
    proof (cases cs)
      case Nil
      with False show ?thesis by simp
    next
      case (Cons d ds)
      show ?thesis
      proof (cases "is_dot_hyphen d")
        case True
        with False 2 Cons eq show ?thesis by simp
      next
        case False2: False
        with False 2 Cons eq show ?thesis by simp
      qed
    qed
  qed
qed

subsection \<open>Python values and the image element\<close>

lemma bindE_Inr [simp]: "bindE (Inr v) f = f v"
  by (simp add: bindE_def)

lemma bindE_Inl [simp]: "bindE (Inl e) f = Inl e"
  by (simp add: bindE_def)

lemma startswith_single: "startswith (c # cs) [d] = (c = d)"
  by (simp add: startswith_def)

lemma replace_space_filter: "py_replace [32] [] s = filter (\<lambda>c. c \<noteq> 32) s"
  by (induction s) (simp_all add: startswith_single)

lemma strip_spaces_str: "strip_spaces (PStr s) = PStr (filter (\<lambda>c. c \<noteq> 32) s)"
  by (simp add: replace_space_filter)

lemma xget_xset_same: "xget (xset k v e) k = Some v"
proof (cases e)
  case (Element t a x c)
  have "map_of (attr_update k v a) k = Some v"
    by (induction a) auto
  with Element show ?thesis by simp
qed

lemma xget_xset_other: "k' \<noteq> k \<Longrightarrow> xget (xset k v e) k' = xget e k'"
proof (cases e)
  case (Element t a x c)
  assume "k' \<noteq> k"
  then have "map_of (attr_update k v a) k' = map_of a k'"
    by (induction a) auto
  with Element show ?thesis by simp
qed

text \<open>The definitions a concrete input is evaluated with.\<close>

lemmas model_defs = annotation_points_def box_points_def polygon_points_def point_text_def
  xy_text_def coord_text_def py_add_def text_value_of_def polygon_elem_def polygon_of_1128_def
  polygon_of_merged_def escape_xml_text_def image_dims_def image_header_def payload_def
  convert_result_json_to_xml_def convert_result_json_to_xml_merged_def
  box_record_def result_doc_def source_doc_def polygon_labels_def polygon_texts_def
  polygon_points_attr_def str_int_def digits.simps startswith_def py_strip_def py_isspace_def
  no_floats_def jung_def sang_def Let_def ustr_def

lemma polygon_elem_label:
  "xget (polygon_elem ops label z pts w t) (ustr ''label'') = Some label"
  by (simp add: polygon_elem_def Let_def ustr_def)

lemma polygon_elem_children:
  "xchildren (polygon_elem ops label z pts w t)
     = (if w then [Element (ustr ''attribute'') [(ustr ''name'', ustr ''text'')]
                     (Some (escape_xml_text ops t)) []] else [])"
  by (simp add: polygon_elem_def Let_def)


lemma image_header_attrs:
  "image_dims ops source_json_data = Inr (width, height) \<Longrightarrow>
   image_header ops image_id image_name source_json_data
     = Inr (Element (ustr ''image'')
              [(ustr ''id'', str_int (image_id - 1)),
               (ustr ''name'', escape_xml_text ops (PStr image_name)),
               (ustr ''width'', py_str ops width),
               (ustr ''height'', py_str ops height)] None [])"
  by (simp add: image_header_def Let_def ustr_def)

lemma payload_few_results:
  "py_get result_json_data (ustr ''results'') (PList []) = Inr (PList results) \<Longrightarrow>
   length results < 2 \<Longrightarrow>
   payload mk coord_key ops result_json_data image_elem = Inr image_elem"
  by (simp add: payload_def)

lemma payload_null_cell:
  "py_get result_json_data (ustr ''results'') (PList []) = Inr (PList results) \<Longrightarrow>
   \<not> length results < 2 \<Longrightarrow> results ! 1 = PList (PNone # cells) \<Longrightarrow>
   payload mk coord_key ops result_json_data image_elem = Inr image_elem"
  by (auto simp: payload_def)

subsection \<open>The loop over the manifest\<close>

lemmas loop_defs = row_outcome_1128_def row_outcome_merged_def extract_filename_from_csv_def
  load_json_data_def endswith_def int_attr_def initial_state_def small_env_def small_dirs_def
  manifest_row_def small_builtins_def

text \<open>The loop over the annotations only appends children: the attributes stay.\<close>

lemma xattrib_xappend [simp]: "xattrib (xappend child e) = xattrib e"
  by (cases e) simp

lemma xget_xattrib: "xget e k = map_of (xattrib e) k"
  by (cases e) simp

lemma annotations_loop_attrib:
  "annotations_loop mk ops items z e = Inr e' \<Longrightarrow> xattrib e' = xattrib e"
proof (induction items arbitrary: z e)
  case Nil
  then show ?case by simp
next
  case (Cons a items)
  show ?case
  proof (cases "annotation_points ops a")
    case (Inl err)
    with Cons.prems show ?thesis by simp
  next
    case (Inr points)
    show ?thesis
    proof (cases "points = []")
      case True
      with Cons.prems Inr have "annotations_loop mk ops items z e = Inr e'" by simp
      then show ?thesis by (rule Cons.IH)
    next
      case False
      with Cons.prems Inr obtain tv p where
        "annotations_loop mk ops items (Suc z) (xappend p e) = Inr e'"
        by (auto simp: bindE_def split: sum.splits)
      then have "xattrib e' = xattrib (xappend p e)" by (rule Cons.IH)
      then show ?thesis by simp
    qed
  qed
qed

lemma payload_attrib:
  "payload mk coord_key ops result_json_data e = Inr e' \<Longrightarrow> xattrib e' = xattrib e"
  unfolding payload_def
  by (auto simp: bindE_def annotations_loop_attrib
      split: sum.splits if_splits pyval.splits option.splits)

lemma image_header_id:
  "image_header ops image_id image_name source_json_data = Inr e \<Longrightarrow>
   xget e (ustr ''id'') = Some (str_int (image_id - 1))"
proof -
  assume h: "image_header ops image_id image_name source_json_data = Inr e"
  then obtain w h' where d: "image_dims ops source_json_data = Inr (w, h')"
    by (cases "image_dims ops source_json_data") (auto simp: image_header_def Let_def)
  from image_header_attrs [OF d, of image_id image_name] h show ?thesis
    by (auto simp: ustr_def)
qed

lemma convert_id:
  "convert_result_json_to_xml ops result_json_data image_id image_name source_json_data = Inr e
   \<Longrightarrow> xget e (ustr ''id'') = Some (str_int (image_id - 1))"
proof -
  assume c: "convert_result_json_to_xml ops result_json_data image_id image_name source_json_data = Inr e"
  then obtain e0 where h: "image_header ops image_id image_name source_json_data = Inr e0"
    and p: "payload (polygon_of_1128 ops) (ustr ''name_5OJYEV'') ops result_json_data e0 = Inr e"
    by (auto simp: convert_result_json_to_xml_def bindE_def split: sum.splits)
  from p have "xattrib e = xattrib e0" by (rule payload_attrib)
  with image_header_id [OF h] show ?thesis by (simp add: xget_xattrib)
qed

lemma row_outcome_1128_id:
  "row_outcome_1128 ops env rdir sdir idx row = Inr (Built e) \<Longrightarrow>
   xget e (ustr ''id'') = Some (str_int (int idx))"
  unfolding row_outcome_1128_def Let_def
  by (auto simp: bindE_def dest: convert_id split: if_splits option.splits pyval.splits sum.splits)

lemma process_rows_1128_images:
  "process_rows_1128 ops env rdir sdir idx rows st = Inr st' \<Longrightarrow>
   images st' = images st @ map snd (built_images ops env rdir sdir idx rows)"
proof (induction rows arbitrary: idx st)
  case Nil
  then show ?case by simp
next
  case (Cons row rest)
  from Cons.prems obtain outcome where
    o: "row_outcome_1128 ops env rdir sdir idx row = Inr outcome"
    and r: "process_rows_1128 ops env rdir sdir (Suc idx) rest (apply_outcome outcome st) = Inr st'"
    by (auto simp: bindE_def split: sum.splits)
  from Cons.IH [OF r] o show ?case
    by (cases outcome) simp_all
qed

lemma built_images_length:
  "length (built_images ops env rdir sdir idx rows) \<le> length rows"
  by (induction rows arbitrary: idx) (auto simp: le_SucI split: sum.splits row_outcome.splits)

lemma built_images_positions:
  "(k, e) \<in> set (built_images ops env rdir sdir idx rows) \<Longrightarrow>
   idx \<le> k \<and> k < idx + length rows
   \<and> row_outcome_1128 ops env rdir sdir k (rows ! (k - idx)) = Inr (Built e)"
proof (induction rows arbitrary: idx)
  case Nil
  then show ?case by simp
next
  case (Cons row rest)
  from Cons.prems consider
    (here) "k = idx" "row_outcome_1128 ops env rdir sdir idx row = Inr (Built e)"
    | (later) "(k, e) \<in> set (built_images ops env rdir sdir (Suc idx) rest)"
    by (auto split: sum.splits row_outcome.splits)
  then show ?case
  proof cases
    case here
    then show ?thesis by simp
  next
    case later
    from Cons.IH [OF later] show ?thesis
      by (auto simp: Suc_diff_le)
  qed
qed

lemma built_images_sorted:
  "sorted_wrt (<) (map fst (built_images ops env rdir sdir idx rows))"
proof (induction rows arbitrary: idx)
  case Nil
  then show ?case by simp
next
  case (Cons row rest)
  have "idx < k" if "(k, e) \<in> set (built_images ops env rdir sdir (Suc idx) rest)" for k e
    using built_images_positions [OF that] by simp
  with Cons.IH [of "Suc idx"] show ?case
    by (auto simp: sorted_wrt_append split: sum.splits row_outcome.splits)
qed

lemma built_images_all:
  "length (built_images ops env rdir sdir idx rows) = length rows \<Longrightarrow>
   map fst (built_images ops env rdir sdir idx rows) = [idx..<idx + length rows]"
proof (induction rows arbitrary: idx)
  case Nil
  then show ?case by simp
next
  case (Cons row rest)
  have le: "length (built_images ops env rdir sdir (Suc idx) rest) \<le> length rest"
    by (rule built_images_length)
  with Cons.prems have full: "length (built_images ops env rdir sdir (Suc idx) rest) = length rest"
    by (auto split: sum.splits row_outcome.splits)
  with Cons.prems obtain e where "row_outcome_1128 ops env rdir sdir idx row = Inr (Built e)"
    by (auto split: sum.splits row_outcome.splits)
  moreover have "[idx..<idx + length (row # rest)] = idx # [Suc idx..<Suc idx + length rest]"
    by (subst upt_rec) simp
  ultimately show ?case
    using Cons.IH [OF full] by simp
qed

subsection \<open>Timestamps\<close>

lemma days_before_month_step:
  "1 < m \<Longrightarrow> days_before_month y m = days_before_month y (m - 1) + days_in_month y (m - 1)"
proof -
  assume "1 < m"
  then have "[1..m - 1] = [1..m - 1 - 1] @ [m - 1]"
    by (intro upto_rec2) simp
  then show ?thesis by (simp add: days_before_month_def)
qed

lemma days_before_month_1: "days_before_month y 1 = 0"
  by (simp add: days_before_month_def)

lemma upto_1_11: "[1..11] = [1, 2, 3, 4, 5, 6, 7, 8, 9, 10, 11 :: int]"
  by (simp add: upto_rec1)

lemma days_before_month_12:
  "days_before_month y 12 = 334 + (if is_leap y then 1 else 0)"
  by (simp add: days_before_month_def upto_1_11 days_in_month_def)

lemma days_in_month_pos: "0 < days_in_month y m"
  by (simp add: days_in_month_def)

lemma days_before_month_nonneg: "0 \<le> days_before_month y m"
proof -
  have "0 \<le> sum_list (map (days_in_month y) xs)" for xs
    by (induction xs) (simp_all add: add_nonneg_nonneg less_imp_le [OF days_in_month_pos])
  then show ?thesis by (simp add: days_before_month_def)
qed

lemma div_pred:
  fixes n k :: int
  assumes "0 < k"
  shows "n div k = (n - 1) div k + (if n mod k = 0 then 1 else 0)"
proof (cases "n mod k = 0")
  case True
  have "k * (n div k) + n mod k = n" by (rule mult_div_mod_eq)
  with True have "n - 1 = k * (n div k - 1) + (k - 1)"
    by (simp add: algebra_simps)
  then have "(n - 1) div k = n div k - 1"
    by (rule int_div_pos_eq) (use assms in simp_all)
  with True show ?thesis by simp
next
  case False
  have "0 \<le> n mod k" "n mod k < k" using assms by simp_all
  with False have r: "0 \<le> n mod k - 1" "n mod k - 1 < k" by simp_all
  have "k * (n div k) + n mod k = n" by (rule mult_div_mod_eq)
  then have "n - 1 = k * (n div k) + (n mod k - 1)" by simp
  then have "(n - 1) div k = n div k"
    using r by (rule int_div_pos_eq)
  with False show ?thesis by simp
qed

lemma leap_indicator:
  fixes n :: int
  shows "(if n mod 4 = 0 then 1 else 0) - (if n mod 100 = 0 then 1 else 0)
          + (if n mod 400 = 0 then 1 else 0) = (if is_leap n then 1 else (0::int))"
proof -
  have a: "n mod 4 = 0" if "n mod 100 = 0"
  proof -
    have "n mod 100 mod 4 = n mod 4" by (rule mod_mod_cancel) simp
    with that show ?thesis by simp
  qed
  have b: "n mod 100 = 0" if "n mod 400 = 0"
  proof -
    have "n mod 400 mod 100 = n mod 100" by (rule mod_mod_cancel) simp
    with that show ?thesis by simp
  qed
  show ?thesis
  proof (cases "n mod 4 = 0")
    case False
    have h100: "n mod 100 \<noteq> 0"
    proof
      assume "n mod 100 = 0"
      then have "n mod 4 = 0" by (rule a)
      with False show False by (rule notE)
    qed
    have "n mod 400 \<noteq> 0"
    proof
      assume "n mod 400 = 0"
      then have "n mod 100 = 0" by (rule b)
      with h100 show False by (rule notE)
    qed
    note this h100
    with False show ?thesis by (simp add: is_leap_def)
  next
    case True
    show ?thesis
    proof (cases "n mod 100 = 0")
      case False
      have "n mod 400 \<noteq> 0"
      proof
        assume "n mod 400 = 0"
        then have "n mod 100 = 0" by (rule b)
        with False show False by (rule notE)
      qed
      with True False show ?thesis by (simp add: is_leap_def)
    next
      case h: True
      with True show ?thesis by (simp add: is_leap_def)
    qed
  qed
qed

lemma days_before_year_step:
  assumes "1 < y"
  shows "days_before_year y = days_before_year (y - 1) + 365 + (if is_leap (y - 1) then 1 else 0)"
proof -
  define n where "n = y - 1"
  have d4: "n div 4 = (n - 1) div 4 + (if n mod 4 = 0 then 1 else 0)"
    by (rule div_pred) simp
  have d100: "n div 100 = (n - 1) div 100 + (if n mod 100 = 0 then 1 else 0)"
    by (rule div_pred) simp
  have d400: "n div 400 = (n - 1) div 400 + (if n mod 400 = 0 then 1 else 0)"
    by (rule div_pred) simp
  have "n * 365 + n div 4 - n div 100 + n div 400
      = (n - 1) * 365 + (n - 1) div 4 - (n - 1) div 100 + (n - 1) div 400 + 365
        + ((if n mod 4 = 0 then 1 else 0) - (if n mod 100 = 0 then 1 else 0)
          + (if n mod 400 = 0 then 1 else 0))"
    unfolding d4 d100 d400 by (simp add: algebra_simps)
  then show ?thesis
    unfolding leap_indicator by (simp add: days_before_year_def n_def)
qed

lemma days_before_year_nonneg:
  assumes "1 \<le> y"
  shows "0 \<le> days_before_year y"
proof -
  have n: "0 \<le> y - 1" using assms by simp
  then have "(y - 1) div 100 \<le> (y - 1) div 4"
    by (rule zdiv_mono2) simp_all
  moreover have "0 \<le> (y - 1) div 400"
    using n by (simp add: pos_imp_zdiv_nonneg_iff)
  moreover have "0 \<le> (y - 1) * 365" using n by simp
  ultimately show ?thesis by (simp add: days_before_year_def)
qed

lemma instant_nonneg: "valid_datetime dt \<Longrightarrow> 0 \<le> instant dt"
proof -
  assume v: "valid_datetime dt"
  then have "0 \<le> days_before_year (dt_year dt)"
    by (simp add: valid_datetime_def days_before_year_nonneg)
  moreover have "0 \<le> days_before_month (dt_year dt) (dt_month dt)"
    by (rule days_before_month_nonneg)
  moreover have "1 \<le> dt_day dt" using v by (simp add: valid_datetime_def)
  ultimately have "0 \<le> (days_before_year (dt_year dt) + days_before_month (dt_year dt) (dt_month dt)
        + dt_day dt - 1)"
    by linarith
  then have "0 \<le> (days_before_year (dt_year dt) + days_before_month (dt_year dt) (dt_month dt)
        + dt_day dt - 1) * 86400"
    by simp
  moreover have "0 \<le> dt_hour dt * 3600" "0 \<le> dt_minute dt * 60" "0 \<le> dt_second dt"
    using v by (simp_all add: valid_datetime_def)
  ultimately show ?thesis unfolding instant_def by linarith
qed
lemma sub_hours9_Some:
  assumes v: "valid_datetime dt" and s: "sub_hours9 dt = Some dt'"
  shows "valid_datetime dt' \<and> instant dt' = instant dt - 9 * 3600"
proof -
  consider (hour) "9 \<le> dt_hour dt"
    | (day) "dt_hour dt < 9" "1 < dt_day dt"
    | (month) "dt_hour dt < 9" "dt_day dt = 1" "1 < dt_month dt"
    | (year) "dt_hour dt < 9" "dt_day dt = 1" "dt_month dt = 1" "1 < dt_year dt"
    | (none) "dt_hour dt < 9" "dt_day dt = 1" "dt_month dt = 1" "dt_year dt = 1"
    using v unfolding valid_datetime_def by linarith
  then show ?thesis
  proof cases
    case hour
    with v s show ?thesis
      by (auto simp: sub_hours9_def valid_datetime_def instant_def)
  next
    case day
    with v s show ?thesis
      by (auto simp: sub_hours9_def valid_datetime_def instant_def)
  next
    case month
    with s have dt': "dt' = dt\<lparr>dt_month := dt_month dt - 1,
                 dt_day := days_in_month (dt_year dt) (dt_month dt - 1),
                 dt_hour := dt_hour dt + 15\<rparr>"
      by (simp add: sub_hours9_def)
    have "valid_datetime dt'"
      using v month days_in_month_pos [of "dt_year dt" "dt_month dt - 1"]
      by (simp add: dt' valid_datetime_def)
    moreover have "instant dt' = instant dt - 9 * 3600"
      using month days_before_month_step [OF month(3), of "dt_year dt"]
      by (simp add: dt' instant_def)
    ultimately show ?thesis by simp
  next
    case year
    with s have dt': "dt' = dt\<lparr>dt_year := dt_year dt - 1, dt_month := 12, dt_day := 31,
                 dt_hour := dt_hour dt + 15\<rparr>"
      by (simp add: sub_hours9_def)
    have "valid_datetime dt'"
      using v year by (simp add: dt' valid_datetime_def days_in_month_def)
    moreover have "instant dt' = instant dt - 9 * 3600"
      using year days_before_year_step [OF year(4)]
      by (simp add: dt' instant_def days_before_month_12 days_before_month_1)
    ultimately show ?thesis by simp
  next
    case none
    with s show ?thesis by (simp add: sub_hours9_def)
  qed
qed

lemma sub_hours9_None:
  assumes v: "valid_datetime dt"
  shows "(sub_hours9 dt = None) = (instant dt < 9 * 3600)"
proof (cases "sub_hours9 dt")
  case None
  then have f: "dt_hour dt < 9" "dt_day dt \<le> 1" "dt_month dt \<le> 1" "dt_year dt \<le> 1"
    by (auto simp: sub_hours9_def split: if_splits)
  with v have "dt_day dt = 1" "dt_month dt = 1" "dt_year dt = 1"
    by (auto simp: valid_datetime_def)
  with f v have "instant dt < 9 * 3600"
    by (simp add: instant_def days_before_month_1 days_before_year_def valid_datetime_def)
  with None show ?thesis by simp
next
  case (Some dt')
  from sub_hours9_Some [OF v Some] instant_nonneg [of dt'] have "9 * 3600 \<le> instant dt"
    by simp
  with Some show ?thesis by simp
qed

subsection \<open>Documents with no annotation\<close>

lemma image_dims_readable:
  assumes "readable_source ops source_json_data"
  shows "image_dims ops source_json_data
    = Inr (source_dim (ustr ''width'') source_json_data, source_dim (ustr ''height'') source_json_data)"
proof -
  from assms obtain kv where d: "source_json_data = PDict kv"
    unfolding readable_source_def by (cases source_json_data) simp_all
  show ?thesis
  proof (cases "map_of kv (ustr ''images'')")
    case None
    with d show ?thesis by (simp add: image_dims_def source_dim_def)
  next
    case (Some image_list)
    show ?thesis
    proof (cases "truthy ops image_list")
      case False
      have "source_dim key source_json_data = PInt 0" for key
      proof (cases image_list)
        case (PList l)
        with False have "l = []" by simp
        with d Some PList show ?thesis by (simp add: source_dim_def)
      qed (simp_all add: d Some source_dim_def)
      with d Some False show ?thesis by (simp add: image_dims_def)
    next
      case True
      with assms d Some obtain first others where
        l: "image_list = PList (PDict first # others)"
        and i: "map_of first (ustr ''convertedImageInfo'') = None
          \<or> (\<exists>info. map_of first (ustr ''convertedImageInfo'') = Some (PDict info))"
        unfolding readable_source_def
        by (simp split: pyval.splits list.splits option.splits)
      from i show ?thesis
      proof
        assume "map_of first (ustr ''convertedImageInfo'') = None"
        with d Some l show ?thesis by (simp add: image_dims_def source_dim_def)
      next
        assume "\<exists>info. map_of first (ustr ''convertedImageInfo'') = Some (PDict info)"
        then obtain info where "map_of first (ustr ''convertedImageInfo'') = Some (PDict info)" ..
        with d Some l show ?thesis by (simp add: image_dims_def source_dim_def)
      qed
    qed
  qed
qed

lemma payload_zero_annotation:
  assumes "zero_annotation_doc result_json_data"
  shows "payload mk coord_key ops result_json_data image_elem = Inr image_elem"
proof -
  from assms obtain kv results where d: "result_json_data = PDict kv"
    and r: "map_of kv (ustr ''results'') = Some (PList results)"
    and z: "length results < 2 \<or> null_payload_cell (results ! 1)"
    unfolding zero_annotation_doc_def by (auto split: pyval.splits option.splits)
  from d r have g: "py_get result_json_data (ustr ''results'') (PList []) = Inr (PList results)"
    by simp
  show ?thesis
  proof (cases "length results < 2")
    case True
    with g show ?thesis by (rule payload_few_results)
  next
    case False
    with z have "null_payload_cell (results ! 1)" by simp
    then obtain cells where "results ! 1 = PList (PNone # cells)"
      by (rule null_payload_cell.elims) simp_all
    with g False show ?thesis by (rule payload_null_cell)
  qed
qed

lemma zero_annotation_doc_truthy:
  "zero_annotation_doc result_json_data \<Longrightarrow> truthy ops result_json_data"
  unfolding zero_annotation_doc_def
  by (cases result_json_data) (auto split: option.splits)

lemma jung_neq_sang: "jung \<noteq> sang"
  by (simp add: jung_def sang_def)

section \<open>Claims\<close>

text \<open>
  C4. The formatter's self-closing collapse, run on a form written with a space before the
  slash: \<^verbatim>\<open><tag attr="x" />\<close> does not pass through unchanged, it becomes
  \<^verbatim>\<open><tag attr="x" ></tag>\<close>, because the second group of the pattern takes the space
  as it takes any code point but \<open>>\<close>. The strict form \<^verbatim>\<open><tag attr="x"/>\<close> becomes
  \<^verbatim>\<open><tag attr="x"></tag>\<close>, as the claim says.
\<close>

theorem fix_empty_tags_space_before_slash:
  \<open>fix_empty_tags uw (ustr ''<tag attr="x" />'') = ustr ''<tag attr="x" ></tag>''
   \<and> fix_empty_tags uw (ustr ''<tag />'') = ustr ''<tag ></tag>''
   \<and> fix_empty_tags uw (ustr ''<tag attr="x"/>'') = ustr ''<tag attr="x"></tag>''\<close>
  by (simp add: ustr_def is_word_def)

text \<open>
  C9 (as stated). Formatting is not idempotent on every string the two passes produce:
  from \<^verbatim>\<open><a//>\<close> they produce \<^verbatim>\<open><a/></a>\<close> (the lazy group takes the first slash),
  and formatting that output again collapses the new \<^verbatim>\<open><a/>\<close> to
  \<^verbatim>\<open><a></a></a>\<close>.
\<close>

theorem formatter_not_idempotent:
  "formatter ascii_words (ustr ''<a//>'') = ustr ''<a/></a>''
   \<and> formatter ascii_words (formatter ascii_words (ustr ''<a//>'')) = ustr ''<a></a></a>''
   \<and> formatter ascii_words (formatter ascii_words (ustr ''<a//>''))
       \<noteq> formatter ascii_words (ustr ''<a//>'')"
  by (simp add: formatter_def remove_empty_lines_def ustr_def is_word_def py_strip_def
      py_isspace_def startswith_def)

text \<open>
  C9 (amended). \<open>remove_empty_lines\<close> is idempotent on every string, and the two passes
  together are idempotent on every output of theirs that holds no \<open>/>\<close> any more: a
  second run then collapses nothing and removes or inserts no line.
\<close>

theorem formatter_idempotent:
  "remove_empty_lines (remove_empty_lines t) = remove_empty_lines t
   \<and> (\<not> has_slash_gt (formatter uw s) \<longrightarrow> formatter uw (formatter uw s) = formatter uw s)"
  by (simp add: formatter_def fix_empty_tags_id remove_empty_lines_idem)

theorem formatter_idempotent_witness:
  \<open>remove_empty_lines (remove_empty_lines (ustr ''<a>\<newline>\<newline>  \<newline>x\<newline>\<newline>\<newline>y''))
     = remove_empty_lines (ustr ''<a>\<newline>\<newline>  \<newline>x\<newline>\<newline>\<newline>y'')
   \<and> formatter ascii_words (ustr ''<a>\<newline>\<newline><b k="v"/>\<newline></a>'') = ustr ''<a>\<newline><b k="v"></b>\<newline></a>''
   \<and> \<not> has_slash_gt (formatter ascii_words (ustr ''<a>\<newline>\<newline><b k="v"/>\<newline></a>''))
   \<and> formatter ascii_words (formatter ascii_words (ustr ''<a>\<newline>\<newline><b k="v"/>\<newline></a>''))
     = formatter ascii_words (ustr ''<a>\<newline>\<newline><b k="v"/>\<newline></a>'')\<close>
proof -
  have out: \<open>formatter ascii_words (ustr ''<a>\<newline>\<newline><b k="v"/>\<newline></a>'') = ustr ''<a>\<newline><b k="v"></b>\<newline></a>''\<close>
    by (simp add: formatter_def remove_empty_lines_def ustr_def is_word_def py_strip_def
        py_isspace_def startswith_def)
  have no: \<open>\<not> has_slash_gt (formatter ascii_words (ustr ''<a>\<newline>\<newline><b k="v"/>\<newline></a>''))\<close>
    unfolding out by (simp add: ustr_def)
  show ?thesis
    using formatter_idempotent
      [of \<open>ustr ''<a>\<newline>\<newline>  \<newline>x\<newline>\<newline>\<newline>y''\<close> ascii_words \<open>ustr ''<a>\<newline>\<newline><b k="v"/>\<newline></a>''\<close>]
      out no by simp
qed

text \<open>
  C8. For every non-empty input string, \<open>clean_filename\<close> removes every character that is
  not a word character, a Hangul syllable, a dot or a hyphen, then replaces every maximal
  run of dots and hyphens with a single dot, and appends \<open>.jpg\<close> exactly when no dot
  remains after cleaning: the function of the source is the function of these words.
\<close>

theorem clean_filename_refines:
  assumes "filename \<noteq> []"
  shows "clean_filename uw filename = clean_filename_spec uw filename"
proof -
  have "keeps uw = (\<lambda>c. is_word uw c \<or> is_hangul c \<or> c = 46 \<or> c = 45)"
    by (auto simp: keeps_def is_dot_hyphen_def)
  moreover have swap: "\<And>A (x::ustring) y. (if \<not> A then x else y) = (if A then y else x)"
    by simp
  ultimately show ?thesis using assms
    by (simp only: clean_filename_def clean_filename_spec_def sub_dot_runs_spec Let_def if_False
        swap)
qed


theorem clean_filename_refines_witness:
  "ustr ''a b--..c(1).JPG'' \<noteq> []
   \<and> clean_filename ascii_words (ustr ''a b--..c(1).JPG'')
       = clean_filename_spec ascii_words (ustr ''a b--..c(1).JPG'')
   \<and> clean_filename ascii_words (ustr ''a b--..c(1).JPG'') = ustr ''ab.c1.JPG''
   \<and> clean_filename ascii_words ([54620, 32, 44544, 47] @ ustr ''-1'')
       = clean_filename_spec ascii_words ([54620, 32, 44544, 47] @ ustr ''-1'')
   \<and> clean_filename ascii_words ([54620, 32, 44544, 47] @ ustr ''-1'') = [54620, 44544] @ ustr ''.1''
   \<and> clean_filename ascii_words (ustr ''my file'') = ustr ''myfile.jpg''"
proof -
  have ne: "ustr ''a b--..c(1).JPG'' \<noteq> []" "[54620, 32, 44544, 47] @ ustr ''-1'' \<noteq> []"
    by (simp_all add: ustr_def)
  have v: "clean_filename ascii_words (ustr ''a b--..c(1).JPG'') = ustr ''ab.c1.JPG''"
    "clean_filename ascii_words ([54620, 32, 44544, 47] @ ustr ''-1'') = [54620, 44544] @ ustr ''.1''"
    "clean_filename ascii_words (ustr ''my file'') = ustr ''myfile.jpg''"
    by (simp_all add: clean_filename_def keeps_def is_word_def is_hangul_def is_dot_hyphen_def
        ascii_words_def ustr_def)
  show ?thesis
    using clean_filename_refines [OF ne(1), of ascii_words]
      clean_filename_refines [OF ne(2), of ascii_words] ne v
    by simp
qed

text \<open>
  C3 (as stated). In the single-tier script a retained record whose transcription is the
  empty string gets the label \<open>text\<close> and an \<open>attribute\<close> child with empty text, not the
  label \<open>empty\<close>; the merged script gives it the label \<open>empty\<close> and no child.
\<close>

theorem empty_transcription_is_text_1128:
  "map_sum id (\<lambda>e. (polygon_labels e, polygon_texts e))
     (convert_result_json_to_xml no_floats
        (result_doc (ustr ''name_5OJYEV'') [box_record (PStr [])])
        1 (ustr ''a.jpg'') (source_doc 640 480))
     = Inr ([Some (ustr ''text'')], [[Some []]])
   \<and> map_sum id (\<lambda>e. (polygon_labels e, polygon_texts e))
     (convert_result_json_to_xml_merged no_floats
        (result_doc (ustr ''name_5OJYEV'') [box_record (PStr [])])
        1 (ustr ''a.jpg'') (source_doc 640 480) (PStr sang))
     = Inr ([Some (ustr ''empty'')], [[]])"
  by (simp add: model_defs)

text \<open>
  C3 (amended). Let \<open>t\<close> be the transcription of a retained record after its spaces are
  removed. In the single-tier script the label is \<open>empty\<close>, with no \<open>attribute\<close> child,
  exactly when \<open>t\<close> is the token \<open>empty\<close>; every other \<open>t\<close>, the empty string too, gets
  the label \<open>text\<close> and an \<open>attribute\<close> child that carries the escaped \<open>t\<close>. In the merged
  script the label is \<open>empty\<close>, with no child, when \<open>t\<close> is empty, blank after \<open>strip\<close>,
  or the token \<open>empty\<close>; every other \<open>t\<close> gets the label \<open>text\<close> and the \<open>attribute\<close>
  child with the escaped \<open>t\<close>.
\<close>

theorem text_classification:
  "(let t = filter (\<lambda>c. c \<noteq> 32) s;
        is_empty_1128 = (t = ustr ''empty'');
        is_empty_merged = (t = [] \<or> py_strip t = [] \<or> t = ustr ''empty'');
        child = Element (ustr ''attribute'') [(ustr ''name'', ustr ''text'')]
                  (Some (escape_xml_text ops (PStr t))) []
    in \<exists>p q.
         polygon_of_1128 ops z_order points (strip_spaces (PStr s)) = Inr p
       \<and> xget p (ustr ''label'') = Some (if is_empty_1128 then ustr ''empty'' else ustr ''text'')
       \<and> xchildren p = (if is_empty_1128 then [] else [child])
       \<and> polygon_of_merged ops z_order points (strip_spaces (PStr s)) = Inr q
       \<and> xget q (ustr ''label'') = Some (if is_empty_merged then ustr ''empty'' else ustr ''text'')
       \<and> xchildren q = (if is_empty_merged then [] else [child]))"
  unfolding Let_def strip_spaces_str polygon_of_1128_def polygon_of_merged_def
  by (auto simp: polygon_elem_label polygon_elem_children)

theorem text_classification_witness:
  "(\<exists>p q. polygon_of_1128 no_floats 0 [ustr ''0.0000,0.0000''] (strip_spaces (PStr (ustr ''em pty''))) = Inr p
       \<and> xget p (ustr ''label'') = Some (ustr ''empty'') \<and> xchildren p = []
       \<and> polygon_of_merged no_floats 0 [ustr ''0.0000,0.0000''] (strip_spaces (PStr (ustr ''em pty''))) = Inr q
       \<and> xget q (ustr ''label'') = Some (ustr ''empty'') \<and> xchildren q = [])
   \<and> (\<exists>p q. polygon_of_1128 no_floats 0 [ustr ''0.0000,0.0000''] (strip_spaces (PStr (ustr ''a <b''))) = Inr p
       \<and> xget p (ustr ''label'') = Some (ustr ''text'')
       \<and> xchildren p = [Element (ustr ''attribute'') [(ustr ''name'', ustr ''text'')] (Some (ustr ''a&lt;b'')) []]
       \<and> polygon_of_merged no_floats 0 [ustr ''0.0000,0.0000''] (strip_spaces (PStr (ustr ''a <b''))) = Inr q
       \<and> xget q (ustr ''label'') = Some (ustr ''text'')
       \<and> xchildren q = [Element (ustr ''attribute'') [(ustr ''name'', ustr ''text'')] (Some (ustr ''a&lt;b'')) []])"
proof -
  have f: "filter (\<lambda>c. c \<noteq> 32) (ustr ''em pty'') = ustr ''empty''"
    "filter (\<lambda>c. c \<noteq> 32) (ustr ''a <b'') = ustr ''a<b''"
    by (simp_all add: ustr_def)
  have e: "escape_xml_text no_floats (PStr (ustr ''a<b'')) = ustr ''a&lt;b''"
    "py_strip (ustr ''a<b'') \<noteq> []" "ustr ''a<b'' \<noteq> ustr ''empty''" "ustr ''a<b'' \<noteq> []"
    by (simp_all add: model_defs)
  show ?thesis
    using text_classification [of "ustr ''em pty''" no_floats 0 "[ustr ''0.0000,0.0000'']"]
      text_classification [of "ustr ''a <b''" no_floats 0 "[ustr ''0.0000,0.0000'']"]
    unfolding Let_def f by (simp add: e)
qed

text \<open>
  C5 (as stated). The text normalizer does not remove every whitespace character: a tab
  (9) and a newline (10) inside a transcription stay, in the normalized value and in the
  text the image element carries; only the space (32) goes.
\<close>

theorem text_normalizer_keeps_tabs:
  "text_value_of (box_record (PStr [97, 9, 98, 32, 99, 10]) :: unit pyval)
     = Inr (PStr [97, 9, 98, 99, 10])
   \<and> map_sum id polygon_texts
        (convert_result_json_to_xml no_floats
           (result_doc (ustr ''name_5OJYEV'') [box_record (PStr [97, 9, 98, 32, 99, 10])])
           1 (ustr ''a.jpg'') (source_doc 640 480))
       = Inr [[Some [97, 9, 98, 99, 10]]]
   \<and> map_sum id polygon_texts
        (convert_result_json_to_xml_merged no_floats
           (result_doc (ustr ''name_5OJYEV'') [box_record (PStr [97, 9, 98, 32, 99, 10])])
           1 (ustr ''a.jpg'') (source_doc 640 480) (PStr sang))
       = Inr [[Some [97, 9, 98, 99, 10]]]"
  by (simp add: model_defs)

text \<open>
  C5 (amended). For every string transcription, the text normalizer removes every space
  character (U+0020) from the whole string, not only at its ends, and keeps every other
  code point (tabs and newlines too) in its order; the polygon of a retained record is
  built from this value, so classification and output see the string without its spaces.
\<close>

theorem text_normalizer_removes_spaces:
  assumes "map_of kv (ustr ''ocr'') = Some (PStr s)"
    and "annotation_points ops (PDict kv) = Inr points" and "points \<noteq> []"
  shows "text_value_of (PDict kv) = Inr (PStr (filter (\<lambda>c. c \<noteq> 32) s))
    \<and> annotations_loop mk ops (PDict kv # rest) z_order image_elem
        = bindE (mk z_order points (PStr (filter (\<lambda>c. c \<noteq> 32) s)))
            (\<lambda>polygon. annotations_loop mk ops rest (Suc z_order) (xappend polygon image_elem))"
  using assms by (simp add: text_value_of_def replace_space_filter)

theorem text_normalizer_removes_spaces_witness:
  "map_of [(ustr ''annotation'', PStr (ustr ''BOX'')),
           (ustr ''object'', PDict [(ustr ''left'', PInt 0), (ustr ''top'', PInt 0),
                                  (ustr ''width'', PInt 10), (ustr ''height'', PInt 20)]),
           (ustr ''ocr'', PStr [32, 97, 32, 98, 9, 99, 32] :: unit pyval)] (ustr ''ocr'')
     = Some (PStr [32, 97, 32, 98, 9, 99, 32])
   \<and> annotation_points no_floats (box_record (PStr [32, 97, 32, 98, 9, 99, 32]))
     = Inr (map ustr [''0.0000,0.0000'', ''10.0000,0.0000'', ''10.0000,20.0000'', ''0.0000,20.0000''])
   \<and> text_value_of (box_record (PStr [32, 97, 32, 98, 9, 99, 32]) :: unit pyval)
     = Inr (PStr [97, 98, 9, 99])
   \<and> map_sum id polygon_texts
        (annotations_loop (polygon_of_1128 no_floats) no_floats
           [box_record (PStr [32, 97, 32, 98, 9, 99, 32])] 0 (Element (ustr ''image'') [] None []))
     = Inr [[Some [97, 98, 9, 99]]]"
proof -
  let ?kv = "[(ustr ''annotation'', PStr (ustr ''BOX'')),
           (ustr ''object'', PDict [(ustr ''left'', PInt 0), (ustr ''top'', PInt 0),
                                  (ustr ''width'', PInt 10), (ustr ''height'', PInt 20)]),
           (ustr ''ocr'', PStr [32, 97, 32, 98, 9, 99, 32] :: unit pyval)]"
  let ?pts = "map ustr [''0.0000,0.0000'', ''10.0000,0.0000'', ''10.0000,20.0000'', ''0.0000,20.0000'']"
  have b: "box_record (PStr [32, 97, 32, 98, 9, 99, 32]) = PDict ?kv"
    by (simp add: box_record_def)
  have m: "map_of ?kv (ustr ''ocr'') = Some (PStr [32, 97, 32, 98, 9, 99, 32])"
    by (simp add: ustr_def)
  have p: "annotation_points no_floats (PDict ?kv) = Inr ?pts"
    unfolding b [symmetric] by (simp add: model_defs)
  have n: "?pts \<noteq> []" by simp
  have l: "map_sum id polygon_texts
        (bindE (polygon_of_1128 no_floats 0 ?pts (PStr (filter (\<lambda>c. c \<noteq> 32) [32, 97, 32, 98, 9, 99, 32])))
           (\<lambda>polygon. annotations_loop (polygon_of_1128 no_floats) no_floats [] (Suc 0)
              (xappend polygon (Element (ustr ''image'') [] None []))))
     = Inr [[Some [97, 98, 9, 99]]]"
    by (simp add: model_defs)
  show ?thesis
    using text_normalizer_removes_spaces [OF m p n, of "polygon_of_1128 no_floats" "[]" 0
        "Element (ustr ''image'') [] None []"] m p l
    unfolding b by simp
qed

text \<open>
  C7 (as stated). With the result document \<open>{"results": []}\<close>:
  \<^item> the builder of either script raises \<open>AttributeError\<close> when the source document is
    \<open>{"images": [null]}\<close> (\<open>images[0].get\<close>, line 115);
  \<^item> the loop drops the row when the source document is the empty object \<open>{}\<close>
    (\<open>not source_json_data\<close>, line 338), although the builder would return an image
    element for it;
  \<^item> the loop of the merged script raises \<open>ValueError\<close> when the width of the source
    document is null: the builder writes \<open>None\<close>, and line 362 reads it with \<open>int\<close>.
\<close>

theorem zero_annotation_raises_or_dropped:
  "convert_result_json_to_xml no_floats (PDict [(ustr ''results'', PList [])]) 1 (ustr ''a.jpg'')
      (PDict [(ustr ''images'', PList [PNone])]) = Inl AttributeError
   \<and> convert_result_json_to_xml_merged no_floats (PDict [(ustr ''results'', PList [])]) 1
      (ustr ''a.jpg'') (PDict [(ustr ''images'', PList [PNone])]) (PStr jung) = Inl AttributeError
   \<and> row_outcome_1128 small_builtins
        (one_file_env (PDict [(ustr ''results'', PList [])]) (PDict []))
        (ustr ''res'') (ustr ''src'') 0 (manifest_row 7 (ustr ''a.jpg'') jung) = Inr Skipped
   \<and> convert_result_json_to_xml small_builtins (PDict [(ustr ''results'', PList [])]) 1
        (ustr ''a.jpg'') (PDict [])
      = Inr (Element (ustr ''image'')
               [(ustr ''id'', ustr ''0''), (ustr ''name'', ustr ''a.jpg''),
                (ustr ''width'', ustr ''0''), (ustr ''height'', ustr ''0'')] None [])
   \<and> row_outcome_merged small_builtins
        (one_file_env (PDict [(ustr ''results'', PList [])])
           (PDict [(ustr ''images'',
              PList [PDict [(ustr ''convertedImageInfo'',
                             PDict [(ustr ''width'', PNone), (ustr ''height'', PInt 480)])]])]))
        small_dirs 0 (manifest_row 7 (ustr ''a.jpg'') jung) = Inl ValueError"
  by (simp add: model_defs loop_defs one_file_env_def)

text \<open>
  C7 (amended). For every result document whose \<open>results\<close> array has fewer than 2
  entries, or whose payload cell (the first element of \<open>results[1]\<close>) is null, and every
  source document the dimensions can be read from (an object whose \<open>images\<close> is absent or
  empty, or a list whose first entry is an object with \<open>convertedImageInfo\<close> absent or
  an object), the builder of either script returns the image element that carries
  \<open>id\<close>, \<open>name\<close>, \<open>width\<close> and \<open>height\<close> and has no child; nothing is raised.

  The row is not dropped: when the loop reaches the builder for such a row (the file name
  of the row is a non-empty string, a result file of the row is listed, the source file
  exists, both files are read) and the source document is not empty, the loop of the
  single-tier script appends that image element and counts the row (\<open>Built\<close>); the loop
  of the merged script does so for the rows of its two tiers when \<open>int\<close> accepts the
  texts of \<open>width\<close> and \<open>height\<close>.
\<close>

theorem zero_annotation_tolerance:
  assumes "zero_annotation_doc result_json_data"
    and "readable_source ops source_json_data"
  shows
   "convert_result_json_to_xml ops result_json_data image_id image_name source_json_data
      = Inr (image_without_children ops image_id image_name source_json_data)
  \<and> convert_result_json_to_xml_merged ops result_json_data image_id image_name
        source_json_data tier
      = Inr (image_without_children ops image_id image_name source_json_data)
  \<and> (extract_filename_from_csv env (file_name row) = PStr name \<and> name \<noteq> []
       \<and> listdir env result_dir = Some files
       \<and> filter (\<lambda>file. startswith file (py_str ops (data_idx row) @ ustr ''_'')
                        \<and> endswith file (ustr ''.json'')) files = result_file # other_files
       \<and> source_file = py_replace (ustr ''.jpg'') (ustr ''.json'')
                          (py_replace (ustr ''.JPG'') (ustr ''.json'') name)
       \<and> path_exists env source_dir source_file
       \<and> read_json env result_dir result_file = Some result_json_data
       \<and> read_json env source_dir source_file = Some source_json_data
       \<and> truthy ops source_json_data
      \<longrightarrow> row_outcome_1128 ops env result_dir source_dir idx row
          = Inr (Built (image_without_children ops (int idx + 1) name source_json_data)))
  \<and> (extract_filename_from_csv env (file_name row) = PStr name \<and> name \<noteq> []
       \<and> (difficulty row = PStr jung \<and> result_dir = result_json_dir_hard dirs
              \<and> source_dir = source_json_dir_hard dirs
            \<or> difficulty row = PStr sang \<and> result_dir = result_json_dir_very_hard dirs
              \<and> source_dir = source_json_dir_very_hard dirs)
       \<and> listdir env result_dir = Some files
       \<and> filter (\<lambda>file. startswith file (py_str ops (data_idx row) @ ustr ''_'')
                        \<and> endswith file (ustr ''.json'')) files = result_file # other_files
       \<and> source_file = py_replace (ustr ''.jpg'') (ustr ''.json'') name
       \<and> path_exists env source_dir source_file
       \<and> read_json env result_dir result_file = Some result_json_data
       \<and> read_json env source_dir source_file = Some source_json_data
       \<and> truthy ops source_json_data
       \<and> int_of_str ops (py_str ops (source_dim (ustr ''width'') source_json_data)) = Some w
       \<and> int_of_str ops (py_str ops (source_dim (ustr ''height'') source_json_data)) = Some h
      \<longrightarrow> row_outcome_merged ops env dirs idx row
          = Inr (Built (image_without_children ops (int idx + 1) name source_json_data)))"
proof -
  have h: "image_header ops i n source_json_data
      = Inr (image_without_children ops i n source_json_data)" for i n
    unfolding image_without_children_def
    by (rule image_header_attrs) (rule image_dims_readable [OF assms(2)])
  have b1: "convert_result_json_to_xml ops result_json_data i n source_json_data
      = Inr (image_without_children ops i n source_json_data)" for i n
    by (simp add: convert_result_json_to_xml_def h payload_zero_annotation [OF assms(1)])
  have b2: "convert_result_json_to_xml_merged ops result_json_data i n source_json_data t
      = Inr (image_without_children ops i n source_json_data)" for i n t
    by (simp add: convert_result_json_to_xml_merged_def h payload_zero_annotation [OF assms(1)])
  have t: "truthy ops result_json_data"
    using assms(1) by (rule zero_annotation_doc_truthy)
  have r1: "extract_filename_from_csv env (file_name row) = PStr name \<and> name \<noteq> []
       \<and> listdir env result_dir = Some files
       \<and> filter (\<lambda>file. startswith file (py_str ops (data_idx row) @ ustr ''_'')
                        \<and> endswith file (ustr ''.json'')) files = result_file # other_files
       \<and> source_file = py_replace (ustr ''.jpg'') (ustr ''.json'')
                          (py_replace (ustr ''.JPG'') (ustr ''.json'') name)
       \<and> path_exists env source_dir source_file
       \<and> read_json env result_dir result_file = Some result_json_data
       \<and> read_json env source_dir source_file = Some source_json_data
       \<and> truthy ops source_json_data
      \<longrightarrow> row_outcome_1128 ops env result_dir source_dir idx row
          = Inr (Built (image_without_children ops (int idx + 1) name source_json_data))"
  proof (intro impI, elim conjE)
    assume "extract_filename_from_csv env (file_name row) = PStr name" "name \<noteq> []"
      "listdir env result_dir = Some files"
      "filter (\<lambda>file. startswith file (py_str ops (data_idx row) @ ustr ''_'')
                        \<and> endswith file (ustr ''.json'')) files = result_file # other_files"
      "source_file = py_replace (ustr ''.jpg'') (ustr ''.json'')
                          (py_replace (ustr ''.JPG'') (ustr ''.json'') name)"
      "path_exists env source_dir source_file"
      "read_json env result_dir result_file = Some result_json_data"
      "read_json env source_dir source_file = Some source_json_data"
      "truthy ops source_json_data"
    then show "row_outcome_1128 ops env result_dir source_dir idx row
          = Inr (Built (image_without_children ops (int idx + 1) name source_json_data))"
      by (simp add: row_outcome_1128_def load_json_data_def Let_def b1 t)
  qed
  have w: "int_attr ops (image_without_children ops i n source_json_data) (ustr ''width'')
       = (case int_of_str ops (py_str ops (source_dim (ustr ''width'') source_json_data)) of
            None \<Rightarrow> Inl ValueError | Some k \<Rightarrow> Inr k)"
    "int_attr ops (image_without_children ops i n source_json_data) (ustr ''height'')
       = (case int_of_str ops (py_str ops (source_dim (ustr ''height'') source_json_data)) of
            None \<Rightarrow> Inl ValueError | Some k \<Rightarrow> Inr k)" for i n
    by (simp_all add: int_attr_def image_without_children_def ustr_def)
  have r2: "extract_filename_from_csv env (file_name row) = PStr name \<and> name \<noteq> []
       \<and> (difficulty row = PStr jung \<and> result_dir = result_json_dir_hard dirs
              \<and> source_dir = source_json_dir_hard dirs
            \<or> difficulty row = PStr sang \<and> result_dir = result_json_dir_very_hard dirs
              \<and> source_dir = source_json_dir_very_hard dirs)
       \<and> listdir env result_dir = Some files
       \<and> filter (\<lambda>file. startswith file (py_str ops (data_idx row) @ ustr ''_'')
                        \<and> endswith file (ustr ''.json'')) files = result_file # other_files
       \<and> source_file = py_replace (ustr ''.jpg'') (ustr ''.json'') name
       \<and> path_exists env source_dir source_file
       \<and> read_json env result_dir result_file = Some result_json_data
       \<and> read_json env source_dir source_file = Some source_json_data
       \<and> truthy ops source_json_data
       \<and> int_of_str ops (py_str ops (source_dim (ustr ''width'') source_json_data)) = Some w
       \<and> int_of_str ops (py_str ops (source_dim (ustr ''height'') source_json_data)) = Some h
      \<longrightarrow> row_outcome_merged ops env dirs idx row
          = Inr (Built (image_without_children ops (int idx + 1) name source_json_data))"
  proof (intro impI, elim conjE)
    assume a: "extract_filename_from_csv env (file_name row) = PStr name" "name \<noteq> []"
      "listdir env result_dir = Some files"
      "filter (\<lambda>file. startswith file (py_str ops (data_idx row) @ ustr ''_'')
                        \<and> endswith file (ustr ''.json'')) files = result_file # other_files"
      "source_file = py_replace (ustr ''.jpg'') (ustr ''.json'') name"
      "path_exists env source_dir source_file"
      "read_json env result_dir result_file = Some result_json_data"
      "read_json env source_dir source_file = Some source_json_data"
      "truthy ops source_json_data"
      "int_of_str ops (py_str ops (source_dim (ustr ''width'') source_json_data)) = Some w"
      "int_of_str ops (py_str ops (source_dim (ustr ''height'') source_json_data)) = Some h"
    assume "difficulty row = PStr jung \<and> result_dir = result_json_dir_hard dirs
              \<and> source_dir = source_json_dir_hard dirs
            \<or> difficulty row = PStr sang \<and> result_dir = result_json_dir_very_hard dirs
              \<and> source_dir = source_json_dir_very_hard dirs"
    then show "row_outcome_merged ops env dirs idx row
          = Inr (Built (image_without_children ops (int idx + 1) name source_json_data))"
    proof (elim disjE conjE)
      assume "difficulty row = PStr jung" "result_dir = result_json_dir_hard dirs"
        "source_dir = source_json_dir_hard dirs"
      with a show ?thesis
        by (simp add: row_outcome_merged_def load_json_data_def Let_def b2 t w)
    next
      assume "difficulty row = PStr sang" "result_dir = result_json_dir_very_hard dirs"
        "source_dir = source_json_dir_very_hard dirs"
      with a jung_neq_sang show ?thesis
        by (simp add: row_outcome_merged_def load_json_data_def Let_def b2 t w)
    qed
  qed
  show ?thesis
    by (intro conjI) (rule b1 b2 r1 r2)+
qed

theorem zero_annotation_tolerance_witness:
  "zero_annotation_doc
     (PDict [(ustr ''results'', PList [PList [], PList [PNone, PStr (ustr ''x'')]])] :: unit pyval)
   \<and> readable_source small_builtins (source_doc 640 480)
   \<and> convert_result_json_to_xml small_builtins
        (PDict [(ustr ''results'', PList [PList [], PList [PNone, PStr (ustr ''x'')]])])
        3 (ustr ''a.jpg'') (source_doc 640 480)
       = Inr (Element (ustr ''image'')
               [(ustr ''id'', ustr ''2''), (ustr ''name'', ustr ''a.jpg''),
                (ustr ''width'', ustr ''640''), (ustr ''height'', ustr ''480'')] None [])
   \<and> convert_result_json_to_xml_merged small_builtins
        (PDict [(ustr ''results'', PList [PList [], PList [PNone, PStr (ustr ''x'')]])])
        3 (ustr ''a.jpg'') (source_doc 640 480) (PStr jung)
       = Inr (Element (ustr ''image'')
               [(ustr ''id'', ustr ''2''), (ustr ''name'', ustr ''a.jpg''),
                (ustr ''width'', ustr ''640''), (ustr ''height'', ustr ''480'')] None [])
   \<and> row_outcome_1128 small_builtins
        (one_file_env
           (PDict [(ustr ''results'', PList [PList [], PList [PNone, PStr (ustr ''x'')]])])
           (source_doc 640 480))
        (ustr ''res'') (ustr ''src'') 2 (manifest_row 7 (ustr ''a.jpg'') jung)
       = Inr (Built (Element (ustr ''image'')
               [(ustr ''id'', ustr ''2''), (ustr ''name'', ustr ''a.jpg''),
                (ustr ''width'', ustr ''640''), (ustr ''height'', ustr ''480'')] None []))
   \<and> row_outcome_merged small_builtins
        (one_file_env
           (PDict [(ustr ''results'', PList [PList [], PList [PNone, PStr (ustr ''x'')]])])
           (source_doc 640 480))
        small_dirs 2 (manifest_row 7 (ustr ''a.jpg'') sang)
       = Inr (Built (Element (ustr ''image'')
               [(ustr ''id'', ustr ''2''), (ustr ''name'', ustr ''a.jpg''),
                (ustr ''width'', ustr ''640''), (ustr ''height'', ustr ''480'')] None []))"
proof -
  let ?r = "PDict [(ustr ''results'', PList [PList [], PList [PNone, PStr (ustr ''x'')]])] :: unit pyval"
  let ?s = "source_doc 640 480 :: unit pyval"
  let ?env = "one_file_env ?r ?s"
  let ?e = "Element (ustr ''image'')
               [(ustr ''id'', ustr ''2''), (ustr ''name'', ustr ''a.jpg''),
                (ustr ''width'', ustr ''640''), (ustr ''height'', ustr ''480'')] None []"
  note ev = model_defs loop_defs one_file_env_def source_dim_def image_without_children_def
  have z: "zero_annotation_doc ?r"
    by (simp add: zero_annotation_doc_def ustr_def)
  have s: "readable_source small_builtins ?s"
    by (simp add: readable_source_def source_doc_def ustr_def)
  have i: "image_without_children small_builtins 3 (ustr ''a.jpg'') ?s = ?e"
    "image_without_children small_builtins (int 2 + 1) (ustr ''a.jpg'') ?s = ?e"
    by (simp_all add: ev)
  have p1: "extract_filename_from_csv ?env (file_name (manifest_row 7 (ustr ''a.jpg'') jung))
         = PStr (ustr ''a.jpg'') \<and> ustr ''a.jpg'' \<noteq> []
       \<and> listdir ?env (ustr ''res'') = Some [ustr ''7_a.json'']
       \<and> filter (\<lambda>file. startswith file
                          (py_str small_builtins (data_idx (manifest_row 7 (ustr ''a.jpg'') jung))
                             @ ustr ''_'')
                        \<and> endswith file (ustr ''.json'')) [ustr ''7_a.json'']
           = ustr ''7_a.json'' # []
       \<and> ustr ''a.json'' = py_replace (ustr ''.jpg'') (ustr ''.json'')
                          (py_replace (ustr ''.JPG'') (ustr ''.json'') (ustr ''a.jpg''))
       \<and> path_exists ?env (ustr ''src'') (ustr ''a.json'')
       \<and> read_json ?env (ustr ''res'') (ustr ''7_a.json'') = Some ?r
       \<and> read_json ?env (ustr ''src'') (ustr ''a.json'') = Some ?s
       \<and> truthy small_builtins ?s"
    by (simp add: ev)
  have p2: "extract_filename_from_csv ?env (file_name (manifest_row 7 (ustr ''a.jpg'') sang))
         = PStr (ustr ''a.jpg'') \<and> ustr ''a.jpg'' \<noteq> []
       \<and> (difficulty (manifest_row 7 (ustr ''a.jpg'') sang) = PStr jung
              \<and> ustr ''res'' = result_json_dir_hard small_dirs
              \<and> ustr ''src'' = source_json_dir_hard small_dirs
            \<or> difficulty (manifest_row 7 (ustr ''a.jpg'') sang) = PStr sang
              \<and> ustr ''res'' = result_json_dir_very_hard small_dirs
              \<and> ustr ''src'' = source_json_dir_very_hard small_dirs)
       \<and> listdir ?env (ustr ''res'') = Some [ustr ''7_a.json'']
       \<and> filter (\<lambda>file. startswith file
                          (py_str small_builtins (data_idx (manifest_row 7 (ustr ''a.jpg'') sang))
                             @ ustr ''_'')
                        \<and> endswith file (ustr ''.json'')) [ustr ''7_a.json'']
           = ustr ''7_a.json'' # []
       \<and> ustr ''a.json'' = py_replace (ustr ''.jpg'') (ustr ''.json'') (ustr ''a.jpg'')
       \<and> path_exists ?env (ustr ''src'') (ustr ''a.json'')
       \<and> read_json ?env (ustr ''res'') (ustr ''7_a.json'') = Some ?r
       \<and> read_json ?env (ustr ''src'') (ustr ''a.json'') = Some ?s
       \<and> truthy small_builtins ?s
       \<and> int_of_str small_builtins (py_str small_builtins (source_dim (ustr ''width'') ?s))
           = Some 640
       \<and> int_of_str small_builtins (py_str small_builtins (source_dim (ustr ''height'') ?s))
           = Some 480"
    by (simp add: ev)
  note t = zero_annotation_tolerance [OF z s]
  from t [THEN conjunct1, of 3 "ustr ''a.jpg''"] i(1)
  have w1: "convert_result_json_to_xml small_builtins ?r 3 (ustr ''a.jpg'') ?s = Inr ?e"
    by simp
  from t [THEN conjunct2, THEN conjunct1, of 3 "ustr ''a.jpg''" "PStr jung"] i(1)
  have w2: "convert_result_json_to_xml_merged small_builtins ?r 3 (ustr ''a.jpg'') ?s (PStr jung)
      = Inr ?e"
    by simp
  from t [THEN conjunct2, THEN conjunct2, THEN conjunct1, rule_format, OF p1, of 2] i(2)
  have w3: "row_outcome_1128 small_builtins ?env (ustr ''res'') (ustr ''src'') 2
      (manifest_row 7 (ustr ''a.jpg'') jung) = Inr (Built ?e)"
    by simp
  from t [THEN conjunct2, THEN conjunct2, THEN conjunct2, rule_format, OF p2, of 2] i(2)
  have w4: "row_outcome_merged small_builtins ?env small_dirs 2
      (manifest_row 7 (ustr ''a.jpg'') sang) = Inr (Built ?e)"
    by simp
  show ?thesis
    by (intro conjI) (rule z s w1 w2 w3 w4)+
qed




text \<open>
  C1 (as stated). The Nth image element of the output does not always carry the id
  \<open>N - 1\<close>: when the first row of the manifest is skipped (here its file name is empty),
  the first image element is the one of the second row and carries the id 1.
\<close>

theorem first_image_id_after_skipped_row:
  "map_sum id (\<lambda>st. map (\<lambda>e. xget e (ustr ''id'')) (images st))
     (process_rows_1128 no_floats small_env (ustr ''res'') (ustr ''src'') 0
        [manifest_row 7 [] [], manifest_row 8 (ustr ''b.JPG'') []] initial_state)
     = Inr [Some (ustr ''1'')]"
  by (simp add: loop_defs model_defs)

text \<open>
  C1 (amended). For every manifest on which the loop of \<open>data_processing_1128.py\<close> ends,
  the image elements of the output are the elements built for the rows, in manifest row
  order (their row positions increase along the output), and the element built for the
  row at zero-based position \<open>k\<close> carries the id \<open>k\<close>. When no row is skipped (the output
  has as many image elements as the manifest has rows), the Nth image element carries
  the id \<open>N - 1\<close>.
\<close>

theorem order_preservation:
  assumes "process_rows_1128 ops env rdir sdir 0 rows initial_state = Inr st"
  shows "images st = map snd (built_images ops env rdir sdir 0 rows)
    \<and> sorted_wrt (<) (map fst (built_images ops env rdir sdir 0 rows))
    \<and> list_all (\<lambda>(k, e). k < length rows
                  \<and> row_outcome_1128 ops env rdir sdir k (rows ! k) = Inr (Built e)
                  \<and> xget e (ustr ''id'') = Some (str_int (int k)))
         (built_images ops env rdir sdir 0 rows)
    \<and> (length (images st) = length rows
        \<longrightarrow> (\<forall>n < length rows. xget (images st ! n) (ustr ''id'') = Some (str_int (int n))))"
proof -
  let ?B = "built_images ops env rdir sdir 0 rows"
  have im: "images st = map snd ?B"
    using process_rows_1128_images [OF assms] by (simp add: initial_state_def)
  have pos: "k < length rows \<and> row_outcome_1128 ops env rdir sdir k (rows ! k) = Inr (Built e)
      \<and> xget e (ustr ''id'') = Some (str_int (int k))" if "(k, e) \<in> set ?B" for k e
  proof -
    from built_images_positions [OF that]
    have k: "k < length rows"
      and b: "row_outcome_1128 ops env rdir sdir k (rows ! k) = Inr (Built e)"
      by simp_all
    from row_outcome_1128_id [OF b] k b show ?thesis by simp
  qed
  then have all: "list_all (\<lambda>(k, e). k < length rows
                  \<and> row_outcome_1128 ops env rdir sdir k (rows ! k) = Inr (Built e)
                  \<and> xget e (ustr ''id'') = Some (str_int (int k))) ?B"
    by (auto simp: list_all_iff)
  have nth: "xget (images st ! n) (ustr ''id'') = Some (str_int (int n))"
    if len: "length (images st) = length rows" and n: "n < length rows" for n
  proof -
    from len im have l: "length ?B = length rows" by simp
    then have "map fst ?B = [0..<0 + length rows]" by (rule built_images_all)
    then have "map fst ?B ! n = [0..<length rows] ! n" by simp
    with n l have f: "fst (?B ! n) = n" by simp
    from n l have "?B ! n \<in> set ?B" by simp
    then have "(fst (?B ! n), snd (?B ! n)) \<in> set ?B" by simp
    then have "(n, snd (?B ! n)) \<in> set ?B" by (simp only: f)
    from pos [OF this] im n l show ?thesis by simp
  qed
  show ?thesis
  proof (intro conjI impI allI)
    show "images st = map snd ?B" by (rule im)
    show "sorted_wrt (<) (map fst ?B)" by (rule built_images_sorted)
    show "list_all (\<lambda>(k, e). k < length rows
                  \<and> row_outcome_1128 ops env rdir sdir k (rows ! k) = Inr (Built e)
                  \<and> xget e (ustr ''id'') = Some (str_int (int k))) ?B" by (rule all)
    show "xget (images st ! n) (ustr ''id'') = Some (str_int (int n))"
      if "length (images st) = length rows" "n < length rows" for n
      using that by (rule nth)
  qed
qed

theorem order_preservation_witness:
  "\<exists>st. process_rows_1128 no_floats small_env (ustr ''res'') (ustr ''src'') 0
           [manifest_row 7 (ustr ''a.jpg'') [], manifest_row 8 (ustr ''b.JPG'') []] initial_state
         = Inr st
       \<and> length (images st) = 2
       \<and> xget (images st ! 0) (ustr ''id'') = Some (ustr ''0'')
       \<and> xget (images st ! 1) (ustr ''id'') = Some (ustr ''1'')
       \<and> map (\<lambda>e. xget e (ustr ''name'')) (images st) = [Some (ustr ''a.jpg''), Some (ustr ''b.JPG'')]"
proof -
  let ?rows = "[manifest_row 7 (ustr ''a.jpg'') [], manifest_row 8 (ustr ''b.JPG'') []]"
  let ?run = "process_rows_1128 no_floats small_env (ustr ''res'') (ustr ''src'') 0 ?rows initial_state"
  have ev: "map_sum id (\<lambda>st. (length (images st), map (\<lambda>e. xget e (ustr ''name'')) (images st))) ?run
      = Inr (2, [Some (ustr ''a.jpg''), Some (ustr ''b.JPG'')])"
    by (simp add: loop_defs model_defs)
  then obtain st where st: "?run = Inr st"
    by (cases ?run) auto
  with ev have len: "length (images st) = 2"
    and names: "map (\<lambda>e. xget e (ustr ''name'')) (images st) = [Some (ustr ''a.jpg''), Some (ustr ''b.JPG'')]"
    by simp_all
  have s: "str_int (int 0) = ustr ''0''" "str_int (int 1) = ustr ''1''"
    by (simp_all add: str_int_def digits.simps ustr_def)
  from order_preservation [OF st, THEN conjunct2, THEN conjunct2, THEN conjunct2] len
  have ids: "\<forall>n < 2. xget (images st ! n) (ustr ''id'') = Some (str_int (int n))"
    by simp
  from ids [rule_format, of 0] s have i0: "xget (images st ! 0) (ustr ''id'') = Some (ustr ''0'')"
    by simp
  from ids [rule_format, of 1] s have i1: "xget (images st ! 1) (ustr ''id'') = Some (ustr ''1'')"
    by simp
  show ?thesis
    by (rule exI [of _ st]) (simp only: st len i0 i1 names simp_thms)
qed

text \<open>
  C10. In the two-tier conversion (\<open>data_processing_1212_merged.py\<close>), a manifest row
  whose difficulty is neither of the two tags is skipped: the body of the loop builds no
  image element for it, adds nothing to the missing files, does not count it, and the
  loop goes on with the next row in the state it had.
\<close>

theorem unknown_difficulty_skipped:
  assumes "difficulty row \<noteq> PStr jung" and "difficulty row \<noteq> PStr sang"
  shows "row_outcome_merged ops env dirs idx row = Inr Skipped
    \<and> images (apply_outcome Skipped st) = images st
    \<and> missing_files (apply_outcome Skipped st) = missing_files st
    \<and> processed_count (apply_outcome Skipped st) = processed_count st
    \<and> process_rows_merged ops env dirs idx (row # rest) st
        = process_rows_merged ops env dirs (Suc idx) rest st"
proof -
  have "row_outcome_merged ops env dirs idx row = Inr Skipped"
    using assms by (simp add: row_outcome_merged_def Let_def)
  then show ?thesis by simp
qed

theorem unknown_difficulty_skipped_witness:
  "difficulty (manifest_row 7 (ustr ''a.jpg'') (ustr ''low'')) \<noteq> PStr jung
   \<and> difficulty (manifest_row 7 (ustr ''a.jpg'') (ustr ''low'')) \<noteq> PStr sang
   \<and> row_outcome_merged small_builtins small_env small_dirs 0
        (manifest_row 7 (ustr ''a.jpg'') (ustr ''low'')) = Inr Skipped
   \<and> map_sum id (\<lambda>st. (map (\<lambda>e. xget e (ustr ''id'')) (images st), missing_files st,
                         processed_count st))
        (process_rows_merged small_builtins small_env small_dirs 0
           [manifest_row 7 (ustr ''a.jpg'') (ustr ''low''), manifest_row 8 (ustr ''b.jpg'') sang]
           initial_state)
       = Inr ([Some (ustr ''1'')], [], 1)"
proof -
  have d: "difficulty (manifest_row 7 (ustr ''a.jpg'') (ustr ''low'')) \<noteq> PStr jung"
    "difficulty (manifest_row 7 (ustr ''a.jpg'') (ustr ''low'')) \<noteq> PStr sang"
    by (simp_all add: manifest_row_def jung_def sang_def ustr_def)
  have r: "map_sum id (\<lambda>st. (map (\<lambda>e. xget e (ustr ''id'')) (images st), missing_files st,
                         processed_count st))
        (process_rows_merged small_builtins small_env small_dirs (Suc 0)
           [manifest_row 8 (ustr ''b.jpg'') sang] initial_state)
       = Inr ([Some (ustr ''1'')], [], 1)"
    by (simp add: loop_defs model_defs)
  show ?thesis
    using unknown_difficulty_skipped [OF d, of small_builtins small_env small_dirs 0 initial_state
        "[manifest_row 8 (ustr ''b.jpg'') sang]"] d r
    by simp
qed

text \<open>
  C6 (as stated). A string that parses with the first format is not always turned into
  the instant nine hours earlier: for 0001-01-01T05:00:00 that instant lies before the
  first datetime, the subtraction raises \<open>OverflowError\<close>, the bare \<open>except\<close> catches it,
  the second format does not match, and the string comes back unchanged.
\<close>

theorem add_timezone_year_one_unchanged:
  "strptime small_time_lib (PStr (ustr ''0001-01-01T05:00:00'')) fmt_T
     = Some \<lparr>dt_year = 1, dt_month = 1, dt_day = 1, dt_hour = 5, dt_minute = 0, dt_second = 0\<rparr>
   \<and> valid_datetime \<lparr>dt_year = 1, dt_month = 1, dt_day = 1, dt_hour = 5, dt_minute = 0, dt_second = 0\<rparr>
   \<and> add_timezone_to_datetime small_time_lib (PStr (ustr ''0001-01-01T05:00:00''))
     = PStr (ustr ''0001-01-01T05:00:00'')"
  by (simp add: small_time_lib_def add_timezone_to_datetime_def shift_with_def sub_hours9_def
      valid_datetime_def days_in_month_def fmt_T_def fmt_space_def ustr_def)

text \<open>
  C6 (amended). \<open>add_timezone_to_datetime\<close> returns a value for every argument (each
  \<open>try\<close> has a bare \<open>except\<close>), and the three cases below are all there are.
  \<^item> The argument parses with the first format to a datetime from 0001-01-01 09:00:00
    on: the result is the datetime nine hours earlier, written with the output format.
  \<^item> The first \<open>try\<close> fails (the first format does not parse, or it parses to a datetime
    before 0001-01-01 09:00:00, where the subtraction overflows) and the argument parses
    with the second format to a datetime from 0001-01-01 09:00:00 on: the result is the
    datetime nine hours earlier, written with the output format.
  \<^item> Both \<open>try\<close> blocks fail, each because its format does not parse or because it
    parses to a datetime before 0001-01-01 09:00:00: the argument comes back unchanged.

  The datetime nine hours earlier is valid and lies 32400 seconds before the parsed one,
  and the subtraction overflows exactly for the valid datetimes before
  0001-01-01 09:00:00.
\<close>

theorem add_timezone_nine_hours_earlier:
  "(strptime lib s fmt_T = Some dt \<and> sub_hours9 dt = Some utc_dt
      \<longrightarrow> add_timezone_to_datetime lib s = PStr (strftime lib utc_dt fmt_out))
   \<and> ((strptime lib s fmt_T = None \<or> strptime lib s fmt_T = Some d1 \<and> sub_hours9 d1 = None)
        \<and> strptime lib s fmt_space = Some dt \<and> sub_hours9 dt = Some utc_dt
      \<longrightarrow> add_timezone_to_datetime lib s = PStr (strftime lib utc_dt fmt_out))
   \<and> ((strptime lib s fmt_T = None \<or> strptime lib s fmt_T = Some d1 \<and> sub_hours9 d1 = None)
        \<and> (strptime lib s fmt_space = None
             \<or> strptime lib s fmt_space = Some d2 \<and> sub_hours9 d2 = None)
      \<longrightarrow> add_timezone_to_datetime lib s = s)
   \<and> (valid_datetime dt \<and> sub_hours9 dt = Some utc_dt
      \<longrightarrow> valid_datetime utc_dt \<and> instant utc_dt = instant dt - 9 * 3600)
   \<and> (valid_datetime dt \<longrightarrow> (sub_hours9 dt = None) = (instant dt < 9 * 3600))"
proof -
  note defs = add_timezone_to_datetime_def shift_with_def
  have c1: "strptime lib s fmt_T = Some dt \<and> sub_hours9 dt = Some utc_dt
      \<longrightarrow> add_timezone_to_datetime lib s = PStr (strftime lib utc_dt fmt_out)"
    by (simp add: defs)
  have c2: "(strptime lib s fmt_T = None \<or> strptime lib s fmt_T = Some d1 \<and> sub_hours9 d1 = None)
        \<and> strptime lib s fmt_space = Some dt \<and> sub_hours9 dt = Some utc_dt
      \<longrightarrow> add_timezone_to_datetime lib s = PStr (strftime lib utc_dt fmt_out)"
    by (auto simp: defs)
  have c3: "(strptime lib s fmt_T = None \<or> strptime lib s fmt_T = Some d1 \<and> sub_hours9 d1 = None)
        \<and> (strptime lib s fmt_space = None
             \<or> strptime lib s fmt_space = Some d2 \<and> sub_hours9 d2 = None)
      \<longrightarrow> add_timezone_to_datetime lib s = s"
    by (auto simp: defs)
  have c4: "valid_datetime dt \<and> sub_hours9 dt = Some utc_dt
      \<longrightarrow> valid_datetime utc_dt \<and> instant utc_dt = instant dt - 9 * 3600"
    using sub_hours9_Some [of dt utc_dt] by blast
  have c5: "valid_datetime dt \<longrightarrow> (sub_hours9 dt = None) = (instant dt < 9 * 3600)"
    using sub_hours9_None [of dt] by blast
  show ?thesis
    by (intro conjI) (rule c1 c2 c3 c4 c5)+
qed

theorem add_timezone_nine_hours_earlier_witness:
  "add_timezone_to_datetime small_time_lib (PStr (ustr ''2024-03-01T05:00:00''))
     = PStr (ustr ''2024-02-29 20:00:00+09:00'')
   \<and> add_timezone_to_datetime small_time_lib (PStr (ustr ''2024-03-01 12:30:00''))
     = PStr (ustr ''2024-03-01 03:30:00+09:00'')
   \<and> add_timezone_to_datetime small_time_lib (PStr (ustr ''not a date'')) = PStr (ustr ''not a date'')
   \<and> add_timezone_to_datetime small_time_lib PNone = PNone
   \<and> add_timezone_to_datetime small_time_lib (PStr (ustr ''0001-01-01 05:00:00''))
     = PStr (ustr ''0001-01-01 05:00:00'')
   \<and> add_timezone_to_datetime small_time_lib (PStr (ustr ''0001-01-01T05:00:00''))
     = PStr (ustr ''0001-01-01T05:00:00'')
   \<and> instant \<lparr>dt_year = 2024, dt_month = 2, dt_day = 29, dt_hour = 20, dt_minute = 0, dt_second = 0\<rparr>
     = instant \<lparr>dt_year = 2024, dt_month = 3, dt_day = 1, dt_hour = 5, dt_minute = 0, dt_second = 0\<rparr>
       - 9 * 3600
   \<and> instant \<lparr>dt_year = 1, dt_month = 1, dt_day = 1, dt_hour = 5, dt_minute = 0, dt_second = 0\<rparr>
     < 9 * 3600"
proof -
  let ?d1 = "\<lparr>dt_year = 2024, dt_month = 3, dt_day = 1, dt_hour = 5, dt_minute = 0, dt_second = 0\<rparr>"
  let ?u1 = "\<lparr>dt_year = 2024, dt_month = 2, dt_day = 29, dt_hour = 20, dt_minute = 0, dt_second = 0\<rparr>"
  let ?d2 = "\<lparr>dt_year = 2024, dt_month = 3, dt_day = 1, dt_hour = 12, dt_minute = 30, dt_second = 0\<rparr>"
  let ?u2 = "\<lparr>dt_year = 2024, dt_month = 3, dt_day = 1, dt_hour = 3, dt_minute = 30, dt_second = 0\<rparr>"
  let ?d0 = "\<lparr>dt_year = 1, dt_month = 1, dt_day = 1, dt_hour = 5, dt_minute = 0, dt_second = 0\<rparr>"
  note ev = small_time_lib_def fmt_T_def fmt_space_def fmt_out_def ustr_def
  have p1: "strptime small_time_lib (PStr (ustr ''2024-03-01T05:00:00'')) fmt_T = Some ?d1
      \<and> sub_hours9 ?d1 = Some ?u1"
    by (simp add: ev sub_hours9_def days_in_month_def is_leap_def)
  have p2: "(strptime small_time_lib (PStr (ustr ''2024-03-01 12:30:00'')) fmt_T = None
        \<or> strptime small_time_lib (PStr (ustr ''2024-03-01 12:30:00'')) fmt_T = Some ?d0
          \<and> sub_hours9 ?d0 = None)
      \<and> strptime small_time_lib (PStr (ustr ''2024-03-01 12:30:00'')) fmt_space = Some ?d2
      \<and> sub_hours9 ?d2 = Some ?u2"
    by (simp add: ev sub_hours9_def)
  have p3: "(strptime small_time_lib (PStr (ustr ''not a date'')) fmt_T = None
        \<or> strptime small_time_lib (PStr (ustr ''not a date'')) fmt_T = Some ?d0
          \<and> sub_hours9 ?d0 = None)
      \<and> (strptime small_time_lib (PStr (ustr ''not a date'')) fmt_space = None
        \<or> strptime small_time_lib (PStr (ustr ''not a date'')) fmt_space = Some ?d0
          \<and> sub_hours9 ?d0 = None)"
    "(strptime small_time_lib PNone fmt_T = None
        \<or> strptime small_time_lib PNone fmt_T = Some ?d0 \<and> sub_hours9 ?d0 = None)
      \<and> (strptime small_time_lib PNone fmt_space = None
        \<or> strptime small_time_lib PNone fmt_space = Some ?d0 \<and> sub_hours9 ?d0 = None)"
    "(strptime small_time_lib (PStr (ustr ''0001-01-01 05:00:00'')) fmt_T = None
        \<or> strptime small_time_lib (PStr (ustr ''0001-01-01 05:00:00'')) fmt_T = Some ?d0
          \<and> sub_hours9 ?d0 = None)
      \<and> (strptime small_time_lib (PStr (ustr ''0001-01-01 05:00:00'')) fmt_space = None
        \<or> strptime small_time_lib (PStr (ustr ''0001-01-01 05:00:00'')) fmt_space = Some ?d0
          \<and> sub_hours9 ?d0 = None)"
    "(strptime small_time_lib (PStr (ustr ''0001-01-01T05:00:00'')) fmt_T = None
        \<or> strptime small_time_lib (PStr (ustr ''0001-01-01T05:00:00'')) fmt_T = Some ?d0
          \<and> sub_hours9 ?d0 = None)
      \<and> (strptime small_time_lib (PStr (ustr ''0001-01-01T05:00:00'')) fmt_space = None
        \<or> strptime small_time_lib (PStr (ustr ''0001-01-01T05:00:00'')) fmt_space = Some ?d0
          \<and> sub_hours9 ?d0 = None)"
    by (simp_all add: ev sub_hours9_def)
  have p5: "valid_datetime ?d1 \<and> sub_hours9 ?d1 = Some ?u1"
    by (simp add: valid_datetime_def sub_hours9_def days_in_month_def is_leap_def)
  have p6: "valid_datetime ?d0" "sub_hours9 ?d0 = None"
    by (simp_all add: valid_datetime_def sub_hours9_def days_in_month_def)
  have r: "strftime small_time_lib ?u1 fmt_out = ustr ''2024-02-29 20:00:00+09:00''"
    "strftime small_time_lib ?u2 fmt_out = ustr ''2024-03-01 03:30:00+09:00''"
    by (simp_all add: small_time_lib_def render_out_def pad2_def str_int_def digits.simps ustr_def)
  note t = add_timezone_nine_hours_earlier
  from t [THEN conjunct1, rule_format, OF p1] r(1)
  have w1: "add_timezone_to_datetime small_time_lib (PStr (ustr ''2024-03-01T05:00:00''))
     = PStr (ustr ''2024-02-29 20:00:00+09:00'')" by simp
  from t [THEN conjunct2, THEN conjunct1, rule_format, OF p2] r(2)
  have w2: "add_timezone_to_datetime small_time_lib (PStr (ustr ''2024-03-01 12:30:00''))
     = PStr (ustr ''2024-03-01 03:30:00+09:00'')" by simp
  note w3 = t [THEN conjunct2, THEN conjunct2, THEN conjunct1, rule_format, OF p3(1)]
  note w4 = t [THEN conjunct2, THEN conjunct2, THEN conjunct1, rule_format, OF p3(2)]
  note w5 = t [THEN conjunct2, THEN conjunct2, THEN conjunct1, rule_format, OF p3(3)]
  note w6 = t [THEN conjunct2, THEN conjunct2, THEN conjunct1, rule_format, OF p3(4)]
  note w7 = t [THEN conjunct2, THEN conjunct2, THEN conjunct2, THEN conjunct1,
      rule_format, OF p5, THEN conjunct2]
  from t [THEN conjunct2, THEN conjunct2, THEN conjunct2, THEN conjunct2, rule_format, OF p6(1)] p6(2)
  have w8: "instant ?d0 < 9 * 3600" by simp
  show ?thesis
    by (intro conjI) (rule w1 w2 w3 w4 w5 w6 w7 w8)+
qed

end
